theory Spec2Isabelle
  imports Main "HOL-Library.AList"
begin

section \<open>JavaScript values\<close>

text \<open>
  The values that flow through \<^verbatim>\<open>src/people.js\<close>. The file performs no arithmetic, so a
  number is an opaque finite value (\<open>JNum\<close>) or \<open>JNaN\<close>. An object is its list of own
  enumerable properties in enumeration order. Functions are values as well: \<open>JFun n\<close> is
  the \<open>n\<close>-th function supplied by the caller (opaque; applying it is recorded in the
  trace), and every function literal that \<^verbatim>\<open>people.js\<close> itself creates and passes on is a
  closure constructor holding what the literal captures:
  \<^item> \<open>FlushOneQueueCb action queued_data callback\<close>: the literal of lines 408-416;
  \<^item> \<open>FlushAppendCb cell _append_callback\<close>: the literal of lines 438-445; \<open>cell\<close> is
    the address of the captured variable \<^verbatim>\<open>$append_item\<close>, which the loop of lines
    446-449 keeps assigning;
  \<^item> \<open>PreparedCb callback data\<close>: the value of
    \<^verbatim>\<open>this._mixpanel._prepare_callback(callback, data)\<close> (line 365).
\<close>

datatype jsval =
    JUndefined
  | JNull
  | JBool bool
  | JNum int
  | JNaN
  | JStr string
  | JDate int
  | JArr "jsval list"
  | JObj "(string \<times> jsval) list"
  | JFun nat
  | FlushOneQueueCb string jsval jsval
  | FlushAppendCb nat jsval
  | PreparedCb jsval jsval

type_synonym props = "(string \<times> jsval) list"

text \<open>The condition of an \<^verbatim>\<open>if (v)\<close>.\<close>

fun truthy :: "jsval \<Rightarrow> bool" where
  "truthy JUndefined = False"
| "truthy JNull = False"
| "truthy (JBool b) = b"
| "truthy (JNum n) = (n \<noteq> 0)"
| "truthy JNaN = False"
| "truthy (JStr s) = (s \<noteq> [])"
| "truthy _ = True"

text \<open>\<^verbatim>\<open>typeof v === 'function'\<close>: the values that can be applied.\<close>

fun is_function :: "jsval \<Rightarrow> bool" where
  "is_function (JFun n) = True"
| "is_function (FlushOneQueueCb a q c) = True"
| "is_function (FlushAppendCb i c) = True"
| "is_function (PreparedCb c d) = True"
| "is_function _ = False"

section \<open>The collaborators of \<^verbatim>\<open>people.js\<close>\<close>

text \<open>
  The persistence object as \<^verbatim>\<open>people.js\<close> reads it: \<open>queues p action\<close> is the value of
  \<^verbatim>\<open>persistence._get_queue(action)\<close>, \<open>referrer_info p\<close> that of
  \<^verbatim>\<open>persistence.get_referrer_info()\<close>.
\<close>

record persistence =
  queues :: "string \<Rightarrow> jsval"
  referrer_info :: jsval

text \<open>
  What the file calls and does not define is a parameter: the language's own
  \<^verbatim>\<open>ToString\<close> (on values that are not strings) and \<^verbatim>\<open>parseFloat\<close> (\<open>None\<close> is NaN),
  the codecs of \<^verbatim>\<open>./utils\<close>, the browser's answers, and how the persistence reacts to
  \<^verbatim>\<open>_add_to_people_queue\<close>, \<^verbatim>\<open>_pop_from_people_queue\<close> and \<^verbatim>\<open>update_referrer_info\<close>.
  Every theorem below holds for all of them.
\<close>

record env =
  ToString :: "jsval \<Rightarrow> string"
  parseFloat :: "jsval \<Rightarrow> int option"
  encodeDates :: "jsval \<Rightarrow> jsval"
  JSONEncode :: "jsval \<Rightarrow> string"
  base64Encode :: "string \<Rightarrow> string"
  people_properties :: jsval
  document_referrer :: jsval
  store_add :: "string \<Rightarrow> jsval \<Rightarrow> persistence \<Rightarrow> persistence"
  store_pop :: "string \<Rightarrow> jsval \<Rightarrow> persistence \<Rightarrow> persistence"
  store_update_referrer :: "jsval \<Rightarrow> persistence \<Rightarrow> persistence"

text \<open>
  Everything \<^verbatim>\<open>people.js\<close> does to the world outside is an event of the trace, in the
  order of the calls.
\<close>

datatype event =
    Add_to_people_queue string jsval
  | Pop_from_people_queue string jsval
  | Save
  | Update_referrer_info jsval
  | Send_request jsval jsval jsval
  | Console_error "jsval list"
  | Console_log jsval
  | Call nat "jsval list"

text \<open>
  \<^verbatim>\<open>this._mixpanel\<close>: the configuration, the distinct id, the flag
  \<^verbatim>\<open>_flags.identify_called\<close>, the persistence; \<open>vars\<close> holds the captured variables of
  the closures (one cell for each activation of \<^verbatim>\<open>_flush\<close> that reaches line 437).
\<close>

record mixpanel =
  config :: "string \<Rightarrow> jsval"
  distinct_id :: jsval
  identify_called_flag :: jsval
  persistence :: persistence
  vars :: "jsval list"
  trace :: "event list"

datatype jserror = TypeError

datatype completion = Return jsval | Throw jserror

type_synonym result = "completion \<times> mixpanel"

definition emit :: "event \<Rightarrow> mixpanel \<Rightarrow> mixpanel" where
  "emit e s = s\<lparr>trace := trace s @ [e]\<rparr>"

definition get_config :: "mixpanel \<Rightarrow> string \<Rightarrow> jsval" where
  "get_config s conf_var = config s conf_var"

definition identify_called :: "mixpanel \<Rightarrow> bool" where
  "identify_called s = (identify_called_flag s = JBool True)"

definition get_queue :: "mixpanel \<Rightarrow> string \<Rightarrow> jsval" where
  "get_queue s action = queues (persistence s) action"

definition add_to_people_queue :: "env \<Rightarrow> string \<Rightarrow> jsval \<Rightarrow> mixpanel \<Rightarrow> mixpanel" where
  "add_to_people_queue env action data s =
     emit (Add_to_people_queue action data) (s\<lparr>persistence := store_add env action data (persistence s)\<rparr>)"

definition pop_from_people_queue :: "env \<Rightarrow> string \<Rightarrow> jsval \<Rightarrow> mixpanel \<Rightarrow> mixpanel" where
  "pop_from_people_queue env action data s =
     emit (Pop_from_people_queue action data) (s\<lparr>persistence := store_pop env action data (persistence s)\<rparr>)"

definition update_referrer_info :: "env \<Rightarrow> jsval \<Rightarrow> mixpanel \<Rightarrow> mixpanel" where
  "update_referrer_info env r s =
     emit (Update_referrer_info r) (s\<lparr>persistence := store_update_referrer env r (persistence s)\<rparr>)"

definition save :: "mixpanel \<Rightarrow> mixpanel" where
  "save s = emit Save s"

text \<open>
  Modelled from the spec: the constants of \<^verbatim>\<open>./actions\<close> (line 1), which is not among the
  sources. The six action kinds are the keys of the wire request; their spellings are
  those of the local variables \<^verbatim>\<open>$set\<close>, \<^verbatim>\<open>$set_once\<close>, \<^verbatim>\<open>$unset\<close>, \<^verbatim>\<open>$add\<close>,
  \<^verbatim>\<open>$append\<close>, \<^verbatim>\<open>$union\<close> of \<^verbatim>\<open>people.js\<close>.
\<close>

definition SET_ACTION :: string where "SET_ACTION = ''$set''"
definition SET_ONCE_ACTION :: string where "SET_ONCE_ACTION = ''$set_once''"
definition UNSET_ACTION :: string where "UNSET_ACTION = ''$unset''"
definition ADD_ACTION :: string where "ADD_ACTION = ''$add''"
definition APPEND_ACTION :: string where "APPEND_ACTION = ''$append''"
definition UNION_ACTION :: string where "UNION_ACTION = ''$union''"

section \<open>The helpers of \<^verbatim>\<open>./utils\<close>\<close>

text \<open>
  Modelled from the spec: the predicates \<^verbatim>\<open>_.isUndefined\<close>, \<^verbatim>\<open>_.isArray\<close>, \<^verbatim>\<open>_.isObject\<close>,
  \<^verbatim>\<open>_.isNumber\<close> and \<^verbatim>\<open>_.isEmptyObject\<close> of \<^verbatim>\<open>./utils\<close>, which is not among the sources.
  The spec's single pair versus map: an ordered sequence is not a map, everything else
  that has properties is.
\<close>

definition isUndefined :: "jsval \<Rightarrow> bool" where
  "isUndefined v = (v = JUndefined)"

fun isArray :: "jsval \<Rightarrow> bool" where
  "isArray (JArr xs) = True"
| "isArray _ = False"

fun isObject :: "jsval \<Rightarrow> bool" where
  "isObject (JObj kvs) = True"
| "isObject (JDate d) = True"
| "isObject v = is_function v"

fun isNumber :: "jsval \<Rightarrow> bool" where
  "isNumber (JNum n) = True"
| "isNumber JNaN = True"
| "isNumber _ = False"

text \<open>The string a value becomes where the language needs one (a property key, \<^verbatim>\<open>+\<close>).\<close>

fun to_string :: "env \<Rightarrow> jsval \<Rightarrow> string" where
  "to_string env (JStr s) = s"
| "to_string env v = ToString env v"

text \<open>
  The own enumerable properties a \<^verbatim>\<open>for ... in\<close> visits: those of an object, the indices
  of an array or of a string; a date, a function and the other primitives have none.
\<close>

definition index_keys :: "env \<Rightarrow> nat \<Rightarrow> string list" where
  "index_keys env n = map (\<lambda>i. ToString env (JNum (int i))) [0..<n]"

fun own_props :: "env \<Rightarrow> jsval \<Rightarrow> props" where
  "own_props env (JObj kvs) = kvs"
| "own_props env (JArr xs) = zip (index_keys env (length xs)) xs"
| "own_props env (JStr cs) = zip (index_keys env (length cs)) (map (\<lambda>c. JStr [c]) cs)"
| "own_props env _ = []"

definition isEmptyObject :: "env \<Rightarrow> jsval \<Rightarrow> bool" where
  "isEmptyObject env v = (isObject v \<and> own_props env v = [])"

text \<open>\<^verbatim>\<open>obj[k] = v\<close> on an object: an existing key keeps its place.\<close>

definition obj_set :: "props \<Rightarrow> string \<Rightarrow> jsval \<Rightarrow> props" where
  "obj_set obj k v = AList.update k v obj"

text \<open>\<^verbatim>\<open>k in obj\<close>.\<close>

definition has_key :: "string \<Rightarrow> props \<Rightarrow> bool" where
  "has_key k obj = (k \<in> fst ` set obj)"

text \<open>\<^verbatim>\<open>obj[k]\<close>, \<^verbatim>\<open>undefined\<close> where the key is absent.\<close>

definition obj_get :: "props \<Rightarrow> string \<Rightarrow> jsval" where
  "obj_get obj k = (case map_of obj k of None \<Rightarrow> JUndefined | Some v \<Rightarrow> v)"

text \<open>
  Modelled from the spec: \<^verbatim>\<open>_.extend(obj, source, ...)\<close> of \<^verbatim>\<open>./utils\<close> copies the
  properties of each source into \<open>obj\<close>, left to right, a later one overwriting an earlier
  one, and \<^verbatim>\<open>_.keys\<close> lists the keys.
\<close>

definition extend :: "env \<Rightarrow> props \<Rightarrow> jsval list \<Rightarrow> props" where
  "extend env obj sources =
     fold (\<lambda>source acc. fold (\<lambda>(k, v) acc'. obj_set acc' k v) (own_props env source) acc) sources obj"

definition keys :: "env \<Rightarrow> jsval \<Rightarrow> jsval" where
  "keys env obj = JArr (map (\<lambda>(k, v). JStr k) (own_props env obj))"

text \<open>
  Modelled from the spec: \<^verbatim>\<open>_.truncate(obj, length)\<close> of \<^verbatim>\<open>./utils\<close>, the byte-size
  truncation policy of section 4.3: every string value is clipped to at most \<open>length\<close>
  units, inside sequences and maps as well; nothing else changes and nothing is thrown.
\<close>

fun truncate :: "jsval \<Rightarrow> nat \<Rightarrow> jsval" where
  "truncate (JStr s) n = JStr (take n s)"
| "truncate (JArr xs) n = JArr (map (\<lambda>x. truncate x n) xs)"
| "truncate (JObj kvs) n = JObj (map (\<lambda>kv. (fst kv, truncate (snd kv) n)) kvs)"
| "truncate v n = v"

section \<open>Applying a function value\<close>

text \<open>An argument that was not passed is \<^verbatim>\<open>undefined\<close>.\<close>

definition arg :: "jsval list \<Rightarrow> nat \<Rightarrow> jsval" where
  "arg args i = (if i < length args then args ! i else JUndefined)"

definition read_var :: "mixpanel \<Rightarrow> nat \<Rightarrow> jsval" where
  "read_var s cell = (if cell < length (vars s) then vars s ! cell else JUndefined)"

text \<open>
  Modelled from the spec: \<^verbatim>\<open>_prepare_callback\<close> is not among the sources; by section 4.3
  the function it returns forwards the transport's result to the continuation unchanged,
  together with the data it was prepared with, when a continuation was supplied (the
  equation for \<open>PreparedCb\<close>). The other equations are the source's.

  \<open>invoke env f args s\<close> is the call \<^verbatim>\<open>f(args)\<close> in state \<open>s\<close>. A caller's function is
  opaque: the call is recorded and returns. The two literals of \<^verbatim>\<open>people.js\<close> run their
  bodies (lines 409-415 and 439-444); the second reads \<^verbatim>\<open>$append_item\<close> when it runs.
  Applying anything that is not a function throws a TypeError.
\<close>

fun invoke :: "env \<Rightarrow> jsval \<Rightarrow> jsval list \<Rightarrow> mixpanel \<Rightarrow> result" where
  "invoke env (JFun n) args s = (Return JUndefined, emit (Call n args) s)"
| "invoke env (FlushOneQueueCb action queued_data callback) args s =
     (let response = arg args 0;
          data = arg args 1;
          s1 = (if response = JNum 0 then add_to_people_queue env action queued_data s else s)
      in if \<not> isUndefined callback
         then (case invoke env callback [response, data] s1 of
                 (Throw e, s2) \<Rightarrow> (Throw e, s2)
               | (Return v, s2) \<Rightarrow> (Return JUndefined, s2))
         else (Return JUndefined, s1))"
| "invoke env (FlushAppendCb cell append_callback) args s =
     (let response = arg args 0;
          data = arg args 1;
          s1 = (if response = JNum 0
                then add_to_people_queue env APPEND_ACTION (read_var s cell) s else s)
      in if \<not> isUndefined append_callback
         then (case invoke env append_callback [response, data] s1 of
                 (Throw e, s2) \<Rightarrow> (Throw e, s2)
               | (Return v, s2) \<Rightarrow> (Return JUndefined, s2))
         else (Return JUndefined, s1))"
| "invoke env (PreparedCb callback data) args s =
     (if \<not> isUndefined callback
      then (case invoke env callback [arg args 0, data] s of
              (Throw e, s2) \<Rightarrow> (Throw e, s2)
            | (Return v, s2) \<Rightarrow> (Return JUndefined, s2))
      else (Return JUndefined, s))"
| "invoke env v args s = (Throw TypeError, s)"

text \<open>\<^verbatim>\<open>a; b\<close>: the second statement runs unless the first threw.\<close>

definition and_then :: "result \<Rightarrow> (mixpanel \<Rightarrow> result) \<Rightarrow> result" where
  "and_then r f = (case r of (Throw e, s) \<Rightarrow> (Throw e, s) | (Return v, s) \<Rightarrow> f s)"

section \<open>\<^verbatim>\<open>src/people.js\<close>\<close>

text \<open>
  Each function of the file takes the state of \<^verbatim>\<open>this._mixpanel\<close> and returns what it
  returns (or throws) together with the new state. Objects are values here, and the three
  places where the file relies on sharing are written out: \<^verbatim>\<open>_send_request\<close> adds two keys
  to the object it is given and goes on with that object (lines 339-340); the array
  \<^verbatim>\<open>$append_queue\<close> is the array of the store, so \<^verbatim>\<open>pop()\<close> shortens the store's queue
  (line 447); and the variable \<^verbatim>\<open>$append_item\<close> is one cell shared by the loop and by the
  continuation of line 438.

  Lines 455-457.
\<close>

definition is_reserved_property :: "jsval \<Rightarrow> bool" where
  "is_reserved_property prop = (prop = JStr ''$distinct_id'' \<or> prop = JStr ''$token'')"

text \<open>Lines 380-396.\<close>

definition enqueue :: "env \<Rightarrow> props \<Rightarrow> mixpanel \<Rightarrow> mixpanel" where
  "enqueue env data s =
     (if has_key SET_ACTION data then add_to_people_queue env SET_ACTION (JObj data) s
      else if has_key SET_ONCE_ACTION data then add_to_people_queue env SET_ONCE_ACTION (JObj data) s
      else if has_key UNSET_ACTION data then add_to_people_queue env UNSET_ACTION (JObj data) s
      else if has_key ADD_ACTION data then add_to_people_queue env ADD_ACTION (JObj data) s
      else if has_key APPEND_ACTION data then add_to_people_queue env APPEND_ACTION (JObj data) s
      else if has_key UNION_ACTION data then add_to_people_queue env UNION_ACTION (JObj data) s
      else emit (Console_error [JStr ''Invalid call to _enqueue():'', JObj data]) s)"

text \<open>
  Lines 338-369. \<open>data0\<close> is the object the caller built; lines 339-340 add the two keys
  to it. The codecs are taken to answer with a value of their own and to leave their
  argument as it was. The transport call
  \<^verbatim>\<open>this._mixpanel._send_request(url, {'data': ...}, cb)\<close> is the event \<open>Send_request\<close>.
\<close>

definition send_request :: "env \<Rightarrow> props \<Rightarrow> jsval \<Rightarrow> mixpanel \<Rightarrow> result" where
  "send_request env data0 callback s =
     (let data = obj_set (obj_set data0 ''$token'' (get_config s ''token''))
                   ''$distinct_id'' (distinct_id s);
          date_encoded_data = encodeDates env (JObj data);
          truncated_data = truncate date_encoded_data 255;
          json_data = JSONEncode env date_encoded_data;
          encoded_data = base64Encode env json_data
      in if \<not> identify_called s
         then (let s1 = enqueue env data s
               in if \<not> isUndefined callback
                  then (case invoke env callback
                               [if truthy (get_config s1 ''verbose'')
                                then JObj [(''status'', JNum (- 1)), (''error'', JNull)]
                                else JNum (- 1)] s1 of
                          (Throw e, s2) \<Rightarrow> (Throw e, s2)
                        | (Return v, s2) \<Rightarrow> (Return truncated_data, s2))
                  else (Return truncated_data, s1))
         else (let s1 = emit (Console_log (JStr ''MIXPANEL PEOPLE REQUEST:'')) s;
                   s2 = emit (Console_log truncated_data) s1;
                   s3 = emit (Send_request
                               (JStr (to_string env (get_config s2 ''api_host'') @ ''/engage/''))
                               (JObj [(''data'', JStr encoded_data)])
                               (PreparedCb callback truncated_data)) s2
               in (Return truncated_data, s3)))"

text \<open>
  Modelled from the spec: \<^verbatim>\<open>addOptOutCheckMixpanelPeople\<close> of \<^verbatim>\<open>./gdpr-utils\<close> is not
  among the sources; section 1 treats the consent gate as a pass-through guard around each
  public operation, so the wrapped operations below are the functions it is given.
\<close>

text \<open>Lines 34-64.\<close>

definition set_people :: "env \<Rightarrow> jsval \<Rightarrow> jsval \<Rightarrow> jsval \<Rightarrow> mixpanel \<Rightarrow> result" where
  "set_people env prop to callback0 s =
     (let dollar_set0 =
            (if isObject prop
             then fold (\<lambda>(k, v) acc. if \<not> is_reserved_property (JStr k) then obj_set acc k v else acc)
                    (own_props env prop) []
             else obj_set [] (to_string env prop) to);
          callback = (if isObject prop then to else callback0);
          s1 = (if truthy (get_config s ''save_referrer'')
                then update_referrer_info env (document_referrer env) s else s);
          dollar_set = extend env []
                         [people_properties env, referrer_info (persistence s1), JObj dollar_set0];
          data = obj_set [] SET_ACTION (JObj dollar_set)
      in send_request env data callback s1)"

text \<open>Lines 87-102.\<close>

definition set_once :: "env \<Rightarrow> jsval \<Rightarrow> jsval \<Rightarrow> jsval \<Rightarrow> mixpanel \<Rightarrow> result" where
  "set_once env prop to callback0 s =
     (let dollar_set_once =
            (if isObject prop
             then fold (\<lambda>(k, v) acc. if \<not> is_reserved_property (JStr k) then obj_set acc k v else acc)
                    (own_props env prop) []
             else obj_set [] (to_string env prop) to);
          callback = (if isObject prop then to else callback0);
          data = obj_set [] SET_ONCE_ACTION (JObj dollar_set_once)
      in send_request env data callback s)"

text \<open>Lines 117-133. \<^verbatim>\<open>_.each\<close> visits the elements of the array in order.\<close>

fun elements :: "jsval \<Rightarrow> jsval list" where
  "elements (JArr xs) = xs"
| "elements v = []"

definition unset :: "env \<Rightarrow> jsval \<Rightarrow> jsval \<Rightarrow> mixpanel \<Rightarrow> result" where
  "unset env prop0 callback s =
     (let prop = (if \<not> isArray prop0 then JArr [prop0] else prop0);
          dollar_unset = fold (\<lambda>k acc. if \<not> is_reserved_property k then acc @ [k] else acc)
                           (elements prop) [];
          data = obj_set [] UNSET_ACTION (JArr dollar_unset)
      in send_request env data callback s)"

text \<open>
  Lines 160-185. \<open>increment_each\<close> is the function literal of lines 164-172, applied to one
  property of the map; \<^verbatim>\<open>isNaN(parseFloat(v))\<close> is \<open>parseFloat env v = None\<close>, and the error
  of line 167 goes to the console while the iteration goes on.
\<close>

definition increment_each :: "env \<Rightarrow> string \<times> jsval \<Rightarrow> props \<times> mixpanel \<Rightarrow> props \<times> mixpanel" where
  "increment_each env kv state =
     (case kv of (k, v) \<Rightarrow> case state of (dollar_add, s) \<Rightarrow>
        if \<not> is_reserved_property (JStr k)
        then (if parseFloat env v = None
              then (dollar_add,
                    emit (Console_error [JStr ''Invalid increment value passed to mixpanel.people.increment - must be a number'']) s)
              else (obj_set dollar_add k v, s))
        else (dollar_add, s))"

definition increment :: "env \<Rightarrow> jsval \<Rightarrow> jsval \<Rightarrow> jsval \<Rightarrow> mixpanel \<Rightarrow> result" where
  "increment env prop by0 callback0 s =
     (let (dollar_add, s1) =
            (if isObject prop
             then fold (increment_each env) (own_props env prop) ([], s)
             else (let by = (if isUndefined by0 then JNum 1 else by0)
                   in (obj_set [] (to_string env prop) by, s)));
          callback = (if isObject prop then by0 else callback0);
          data = obj_set [] ADD_ACTION (JObj dollar_add)
      in send_request env data callback s1)"

text \<open>Lines 206-222.\<close>

definition append_people :: "env \<Rightarrow> jsval \<Rightarrow> jsval \<Rightarrow> jsval \<Rightarrow> mixpanel \<Rightarrow> result" where
  "append_people env list_name val callback0 s =
     (let dollar_append =
            (if isObject list_name
             then fold (\<lambda>(k, v) acc. if \<not> is_reserved_property (JStr k) then obj_set acc k v else acc)
                    (own_props env list_name) []
             else obj_set [] (to_string env list_name) val);
          callback = (if isObject list_name then val else callback0);
          data = obj_set [] APPEND_ACTION (JObj dollar_append)
      in send_request env data callback s)"

text \<open>Lines 250-266. \<open>to_list v\<close> is \<^verbatim>\<open>_.isArray(v) ? v : [v]\<close>.\<close>

definition to_list :: "jsval \<Rightarrow> jsval" where
  "to_list v = (if isArray v then v else JArr [v])"

definition union_people :: "env \<Rightarrow> jsval \<Rightarrow> jsval \<Rightarrow> jsval \<Rightarrow> mixpanel \<Rightarrow> result" where
  "union_people env list_name vals callback0 s =
     (let dollar_union =
            (if isObject list_name
             then fold (\<lambda>(k, v) acc. if \<not> is_reserved_property (JStr k) then obj_set acc k (to_list v) else acc)
                    (own_props env list_name) []
             else obj_set [] (to_string env list_name) (to_list vals));
          callback = (if isObject list_name then vals else callback0);
          data = obj_set [] UNION_ACTION (JObj dollar_union)
      in send_request env data callback s)"

text \<open>Lines 287-299. \<^verbatim>\<open>parseFloat\<close> answers a number; \<^verbatim>\<open>isNaN\<close> asks whether it is NaN.\<close>

definition parse_float :: "env \<Rightarrow> jsval \<Rightarrow> jsval" where
  "parse_float env v = (case parseFloat env v of None \<Rightarrow> JNaN | Some n \<Rightarrow> JNum n)"

definition isNaN :: "jsval \<Rightarrow> bool" where
  "isNaN v = (v = JNaN)"

definition track_charge :: "env \<Rightarrow> jsval \<Rightarrow> jsval \<Rightarrow> jsval \<Rightarrow> mixpanel \<Rightarrow> result" where
  "track_charge env amount0 properties callback s =
     (let amount = (if \<not> isNumber amount0 then parse_float env amount0 else amount0)
      in if \<not> isNumber amount0 \<and> isNaN amount
         then (Return JUndefined,
               emit (Console_error [JStr ''Invalid value passed to mixpanel.people.track_charge - must be a number'']) s)
         else append_people env (JStr ''$transactions'')
                (JObj (extend env [(''$amount'', amount)] [properties])) callback s)"

text \<open>Lines 311-313.\<close>

definition clear_charges :: "env \<Rightarrow> jsval \<Rightarrow> mixpanel \<Rightarrow> result" where
  "clear_charges env callback s = set_people env (JStr ''$transactions'') (JArr []) callback s"

text \<open>Lines 325-332.\<close>

definition delete_user :: "env \<Rightarrow> mixpanel \<Rightarrow> result" where
  "delete_user env s =
     (if \<not> identify_called s
      then (Return JUndefined,
            emit (Console_error [JStr ''mixpanel.people.delete_user() requires you to call identify() first'']) s)
      else send_request env [(''$delete'', distinct_id s)] JUndefined s)"

text \<open>
  Lines 398-418. \<open>action_method\<close> is called with two arguments, the parameters and the
  wrapping continuation.
\<close>

definition flush_one_queue ::
  "env \<Rightarrow> string \<Rightarrow> (env \<Rightarrow> jsval \<Rightarrow> jsval \<Rightarrow> mixpanel \<Rightarrow> result) \<Rightarrow> jsval \<Rightarrow>
   (jsval \<Rightarrow> jsval) option \<Rightarrow> mixpanel \<Rightarrow> result" where
  "flush_one_queue env action action_method callback queue_to_params_fn s =
     (let queued_data = JObj (extend env [] [get_queue s action])
      in if \<not> isUndefined queued_data \<and> isObject queued_data \<and> \<not> isEmptyObject env queued_data
         then (let s1 = pop_from_people_queue env action queued_data s;
                   action_params = (case queue_to_params_fn of
                                      Some f \<Rightarrow> f queued_data
                                    | None \<Rightarrow> queued_data)
               in and_then (action_method env action_params
                              (FlushOneQueueCb action queued_data callback) s1)
                    (\<lambda>s2. (Return JUndefined, s2)))
         else (Return JUndefined, s))"

text \<open>
  Lines 446-449, \<open>Suc i\<close> iterations to go. \<open>items\<close> is the array \<^verbatim>\<open>$append_queue\<close>, which
  is the array the persistence holds: \<^verbatim>\<open>pop()\<close> shortens it in place.
\<close>

fun flush_append_loop ::
  "env \<Rightarrow> nat \<Rightarrow> jsval \<Rightarrow> nat \<Rightarrow> jsval list \<Rightarrow> mixpanel \<Rightarrow> result" where
  "flush_append_loop env cell callback 0 items s = (Return JUndefined, s)"
| "flush_append_loop env cell callback (Suc i) items s =
     (let append_item = (if items = [] then JUndefined else last items);
          items' = butlast items;
          s1 = s\<lparr>vars := (vars s)[cell := append_item],
                 persistence := (persistence s)
                   \<lparr>queues := (queues (persistence s))(APPEND_ACTION := JArr items')\<rparr>\<rparr>
      in case append_people env append_item callback JUndefined s1 of
           (Throw e, s2) \<Rightarrow> (Throw e, s2)
         | (Return v, s2) \<Rightarrow> flush_append_loop env cell callback i items' s2)"

text \<open>Lines 422-453.\<close>

definition flush ::
  "env \<Rightarrow> jsval \<Rightarrow> jsval \<Rightarrow> jsval \<Rightarrow> jsval \<Rightarrow> jsval \<Rightarrow> jsval \<Rightarrow> mixpanel \<Rightarrow> result" where
  "flush env set_callback add_callback append_callback set_once_callback union_callback
     unset_callback s =
     (let append_queue = get_queue s APPEND_ACTION
      in and_then (flush_one_queue env SET_ACTION
                     (\<lambda>env p c. set_people env p c JUndefined) set_callback None s) (\<lambda>s.
         and_then (flush_one_queue env SET_ONCE_ACTION
                     (\<lambda>env p c. set_once env p c JUndefined) set_once_callback None s) (\<lambda>s.
         and_then (flush_one_queue env UNSET_ACTION unset unset_callback (Some (keys env)) s) (\<lambda>s.
         and_then (flush_one_queue env ADD_ACTION
                     (\<lambda>env p c. increment env p c JUndefined) add_callback None s) (\<lambda>s.
         and_then (flush_one_queue env UNION_ACTION
                     (\<lambda>env p c. union_people env p c JUndefined) union_callback None s) (\<lambda>s.
           if \<not> isUndefined append_queue \<and> isArray append_queue \<and> length (elements append_queue) \<noteq> 0
           then (let cell = length (vars s);
                     s1 = s\<lparr>vars := vars s @ [JUndefined]\<rparr>;
                     callback = FlushAppendCb cell append_callback
                 in and_then (flush_append_loop env cell callback
                                (length (elements append_queue)) (elements append_queue) s1)
                      (\<lambda>s2. (Return JUndefined, save s2)))
           else (Return JUndefined, s)))))))"

section \<open>What the claims speak of\<close>

text \<open>
  A mutation call with its arguments as the caller wrote them, the operation it runs, its
  action kind, and the continuation the operation ends up with (for the operations that
  take a name or a map, a map in first place makes the second argument the continuation:
  lines 43, 96, 173, 215, 259).
\<close>

datatype mutation =
    Set jsval jsval jsval
  | Set_once jsval jsval jsval
  | Unset jsval jsval
  | Increment jsval jsval jsval
  | Append jsval jsval jsval
  | Union jsval jsval jsval

fun perform :: "env \<Rightarrow> mutation \<Rightarrow> mixpanel \<Rightarrow> result" where
  "perform env (Set prop to callback) s = set_people env prop to callback s"
| "perform env (Set_once prop to callback) s = set_once env prop to callback s"
| "perform env (Unset prop callback) s = unset env prop callback s"
| "perform env (Increment prop by callback) s = increment env prop by callback s"
| "perform env (Append list_name val callback) s = append_people env list_name val callback s"
| "perform env (Union list_name vals callback) s = union_people env list_name vals callback s"

fun action_kind :: "mutation \<Rightarrow> string" where
  "action_kind (Set prop to callback) = SET_ACTION"
| "action_kind (Set_once prop to callback) = SET_ONCE_ACTION"
| "action_kind (Unset prop callback) = UNSET_ACTION"
| "action_kind (Increment prop by callback) = ADD_ACTION"
| "action_kind (Append list_name val callback) = APPEND_ACTION"
| "action_kind (Union list_name vals callback) = UNION_ACTION"

fun supplied_callback :: "mutation \<Rightarrow> jsval" where
  "supplied_callback (Set prop to callback) = (if isObject prop then to else callback)"
| "supplied_callback (Set_once prop to callback) = (if isObject prop then to else callback)"
| "supplied_callback (Unset prop callback) = callback"
| "supplied_callback (Increment prop by callback) = (if isObject prop then by else callback)"
| "supplied_callback (Append list_name val callback) = (if isObject list_name then val else callback)"
| "supplied_callback (Union list_name vals callback) = (if isObject list_name then vals else callback)"

text \<open>The events a run added to the trace, and the kinds of event the claims count.\<close>

definition new_events :: "mixpanel \<Rightarrow> mixpanel \<Rightarrow> event list" where
  "new_events s s' = drop (length (trace s)) (trace s')"

fun is_request :: "event \<Rightarrow> bool" where
  "is_request (Send_request url wire cb) = True"
| "is_request e = False"

fun is_enqueue :: "event \<Rightarrow> bool" where
  "is_enqueue (Add_to_people_queue action data) = True"
| "is_enqueue e = False"

fun is_call :: "event \<Rightarrow> bool" where
  "is_call (Call n args) = True"
| "is_call e = False"

fun is_error :: "event \<Rightarrow> bool" where
  "is_error (Console_error msg) = True"
| "is_error e = False"

fun is_save :: "event \<Rightarrow> bool" where
  "is_save Save = True"
| "is_save e = False"

text \<open>The deferred result is what lines 350-354 hand to the continuation.\<close>

definition deferred_result :: "mixpanel \<Rightarrow> jsval" where
  "deferred_result s =
     (if truthy (get_config s ''verbose'')
      then JObj [(''status'', JNum (- 1)), (''error'', JNull)] else JNum (- 1))"

text \<open>
  Modelled from the spec: the transport is not among the sources. Its results are a
  success, which carries the server's body, 1, or a failure, which carries the status
  indicator 0 (section 6); when the configuration asks for verbose results each is an
  object with that status and an error, the shape of the deferred result of line 351.
\<close>

definition success_result :: "bool \<Rightarrow> jsval" where
  "success_result verbose =
     (if verbose then JObj [(''status'', JNum 1), (''error'', JNull)] else JNum 1)"

definition failure_result :: "bool \<Rightarrow> jsval \<Rightarrow> jsval" where
  "failure_result verbose error =
     (if verbose then JObj [(''status'', JNum 0), (''error'', error)] else JNum 0)"

text \<open>
  The Mutation Payload of a call, in the words of section 4.1. A map gives its
  properties, less the reserved ones, each key bound to the value written last; a single
  name is wrapped with its value. ADD keeps the values of a map that parse to a number,
  and an omitted amount is 1; UNION makes every value a sequence; UNSET gives the
  sequence of the names that are not reserved.
\<close>

definition kept :: "props \<Rightarrow> props" where
  "kept kvs = filter (\<lambda>kv. \<not> is_reserved_property (JStr (fst kv))) kvs"

definition as_map :: "props \<Rightarrow> props" where
  "as_map kvs = fold (\<lambda>kv obj. obj_set obj (fst kv) (snd kv)) kvs []"

fun encoded :: "env \<Rightarrow> mutation \<Rightarrow> jsval" where
  "encoded env (Set prop to callback) =
     JObj (if isObject prop then as_map (kept (own_props env prop))
           else [(to_string env prop, to)])"
| "encoded env (Set_once prop to callback) =
     JObj (if isObject prop then as_map (kept (own_props env prop))
           else [(to_string env prop, to)])"
| "encoded env (Unset prop callback) =
     JArr (filter (\<lambda>k. \<not> is_reserved_property k) (if isArray prop then elements prop else [prop]))"
| "encoded env (Increment prop by callback) =
     JObj (if isObject prop
           then as_map (filter (\<lambda>kv. parseFloat env (snd kv) \<noteq> None) (kept (own_props env prop)))
           else [(to_string env prop, if isUndefined by then JNum 1 else by)])"
| "encoded env (Append list_name val callback) =
     JObj (if isObject list_name then as_map (kept (own_props env list_name))
           else [(to_string env list_name, val)])"
| "encoded env (Union list_name vals callback) =
     JObj (if isObject list_name
           then as_map (map (\<lambda>kv. (fst kv, if isArray (snd kv) then snd kv else JArr [snd kv]))
                         (kept (own_props env list_name)))
           else [(to_string env list_name, if isArray vals then vals else JArr [vals])])"

text \<open>
  The object a call composes in state \<open>s\<close>: its payload under its action kind (for SET,
  laid over the default people properties and the referrer information, which is refreshed
  first when the configuration says so), then the token and the distinct id.
\<close>

fun queued_payload :: "env \<Rightarrow> mutation \<Rightarrow> mixpanel \<Rightarrow> jsval" where
  "queued_payload env (Set prop to callback) s =
     JObj (extend env []
       [people_properties env,
        referrer_info (if truthy (get_config s ''save_referrer'')
                       then store_update_referrer env (document_referrer env) (persistence s)
                       else persistence s),
        encoded env (Set prop to callback)])"
| "queued_payload env m s = encoded env m"

definition composed :: "env \<Rightarrow> mutation \<Rightarrow> mixpanel \<Rightarrow> props" where
  "composed env m s =
     [(action_kind m, queued_payload env m s), (''$token'', get_config s ''token''),
      (''$distinct_id'', distinct_id s)]"

text \<open>
  The wire request of a composed object \<open>v\<close>: the form field \<^verbatim>\<open>data\<close> holding the base64
  text of its JSON text.
\<close>

definition wire_request :: "env \<Rightarrow> jsval \<Rightarrow> jsval" where
  "wire_request env v = JObj [(''data'', JStr (base64Encode env (JSONEncode env v)))]"

text \<open>
  The request that dispatches one entry of the APPEND queue: \<^verbatim>\<open>append(item, callback)\<close>
  composes the entry's properties, less the reserved ones, under \<^verbatim>\<open>$append\<close>.
\<close>

definition append_request :: "env \<Rightarrow> mixpanel \<Rightarrow> jsval \<Rightarrow> jsval \<Rightarrow> event" where
  "append_request env s callback item =
     (let composed = encodeDates env (JObj
            [(APPEND_ACTION,
              JObj (fold (\<lambda>(k, v) acc. if \<not> is_reserved_property (JStr k) then obj_set acc k v else acc)
                      (own_props env item) [])),
             (''$token'', get_config s ''token''),
             (''$distinct_id'', distinct_id s)])
      in Send_request (JStr (to_string env (get_config s ''api_host'') @ ''/engage/''))
           (wire_request env composed)
           (PreparedCb callback (truncate composed 255)))"

section \<open>An environment and two sessions for the examples\<close>

function show_nat :: "nat \<Rightarrow> string" where
  "show_nat n = (if n < 10 then [''0123456789'' ! n]
                 else show_nat (n div 10) @ [''0123456789'' ! (n mod 10)])"
  by pat_completeness auto
termination
  by (relation "measure id") auto

definition show_int :: "int \<Rightarrow> string" where
  "show_int i = (if i < 0 then CHR ''-'' # show_nat (nat (- i)) else show_nat (nat i))"

fun join :: "string \<Rightarrow> string list \<Rightarrow> string" where
  "join sep [] = []"
| "join sep [x] = x"
| "join sep (x # y # ys) = x @ sep @ join sep (y # ys)"

fun js_string :: "jsval \<Rightarrow> string" where
  "js_string JUndefined = ''undefined''"
| "js_string JNull = ''null''"
| "js_string (JBool b) = (if b then ''true'' else ''false'')"
| "js_string (JNum n) = show_int n"
| "js_string JNaN = ''NaN''"
| "js_string (JStr s) = s"
| "js_string (JArr xs) = join '','' (map js_string xs)"
| "js_string (JObj kvs) = ''[object Object]''"
| "js_string v = ''[object]''"

fun json :: "jsval \<Rightarrow> string" where
  "json (JStr s) = CHR 0x22 # s @ [CHR 0x22]"
| "json (JNum n) = show_int n"
| "json (JBool b) = (if b then ''true'' else ''false'')"
| "json (JArr xs) = ''['' @ join '','' (map json xs) @ '']''"
| "json (JObj kvs) =
     ''{'' @ join '','' (map (\<lambda>kv. CHR 0x22 # fst kv @ [CHR 0x22] @ '':'' @ json (snd kv)) kvs) @ ''}''"
| "json v = ''null''"

text \<open>The decimal digits a string starts with, as a number; none is NaN.\<close>

definition leading_number :: "string \<Rightarrow> int option" where
  "leading_number s =
     (let ds = takeWhile (\<lambda>c. c \<in> set ''0123456789'') s
      in if ds = [] then None
         else Some (int (foldl (\<lambda>a c. 10 * a + (of_char c - 48)) 0 ds)))"

fun plain_parseFloat :: "jsval \<Rightarrow> int option" where
  "plain_parseFloat (JNum n) = Some n"
| "plain_parseFloat (JStr s) = leading_number s"
| "plain_parseFloat v = None"

text \<open>
  A small in-memory store for the object that \<^verbatim>\<open>_enqueue\<close> hands over (lines 380-396):
  the entry is what that object holds under the action kind; an APPEND entry is pushed
  onto the list of its queue, an entry of another kind is merged into the map of its queue
  key by key, and popping removes the keys of the popped map.
\<close>

definition plain_store_add :: "string \<Rightarrow> jsval \<Rightarrow> persistence \<Rightarrow> persistence" where
  "plain_store_add action data p =
     (let entry = (case data of JObj kvs \<Rightarrow> obj_get kvs action | v \<Rightarrow> JUndefined)
      in if action = APPEND_ACTION
         then p\<lparr>queues := (queues p)(action := JArr (elements (queues p action) @ [entry]))\<rparr>
         else p\<lparr>queues := (queues p)(action :=
                JObj (fold (\<lambda>kv acc. obj_set acc (fst kv) (snd kv))
                        (case entry of JObj kvs \<Rightarrow> kvs
                         | JArr ks \<Rightarrow> map (\<lambda>k. (js_string k, JBool True)) ks
                         | v \<Rightarrow> [])
                        (case queues p action of JObj q \<Rightarrow> q | v \<Rightarrow> [])))\<rparr>)"

definition plain_store_pop :: "string \<Rightarrow> jsval \<Rightarrow> persistence \<Rightarrow> persistence" where
  "plain_store_pop action data p =
     (case (queues p action, data) of
        (JObj q, JObj kvs) \<Rightarrow>
          p\<lparr>queues := (queues p)(action := JObj (filter (\<lambda>kv. fst kv \<notin> fst ` set kvs) q))\<rparr>
      | other \<Rightarrow> p)"

definition plain_env :: env where
  "plain_env =
     \<lparr>ToString = js_string,
      parseFloat = plain_parseFloat,
      encodeDates = (\<lambda>v. v),
      JSONEncode = json,
      base64Encode = (\<lambda>text. text),
      people_properties = JObj [(''$os'', JStr ''Linux'')],
      document_referrer = JStr [],
      store_add = plain_store_add,
      store_pop = plain_store_pop,
      store_update_referrer = (\<lambda>r p. p)\<rparr>"

definition anonymous :: mixpanel where
  "anonymous =
     \<lparr>config = (\<lambda>c. JUndefined)(''token'' := JStr ''t0k3n'', ''api_host'' := JStr ''https://api.example.com''),
      distinct_id = JStr ''device-1'',
      identify_called_flag = JBool False,
      persistence = \<lparr>queues = (\<lambda>a. JUndefined), referrer_info = JObj []\<rparr>,
      vars = [],
      trace = []\<rparr>"

definition identified :: mixpanel where
  "identified = anonymous\<lparr>distinct_id := JStr ''user-7'', identify_called_flag := JBool True\<rparr>"

text \<open>
  Two identified sessions with pending queues: two names to unset, and two appends (the
  older one first).
\<close>

definition unset_pending :: mixpanel where
  "unset_pending =
     identified\<lparr>persistence :=
       \<lparr>queues = (\<lambda>a. JUndefined)
          (UNSET_ACTION := JObj [(''gender'', JBool True), (''Company'', JBool True)]),
        referrer_info = JObj []\<rparr>\<rparr>"

definition appends_pending :: mixpanel where
  "appends_pending =
     identified\<lparr>persistence :=
       \<lparr>queues = (\<lambda>a. JUndefined)
          (APPEND_ACTION := JArr [JObj [(''log'', JStr ''first'')], JObj [(''log'', JStr ''second'')]]),
        referrer_info = JObj []\<rparr>\<rparr>"

text \<open>The first of them with verbose results configured.\<close>

definition verbose_unset_pending :: mixpanel where
  "verbose_unset_pending =
     unset_pending\<lparr>config := (config unset_pending)(''verbose'' := JBool True)\<rparr>"

section \<open>Basic facts\<close>

lemmas action_defs =
  SET_ACTION_def SET_ONCE_ACTION_def UNSET_ACTION_def ADD_ACTION_def APPEND_ACTION_def
  UNION_ACTION_def

lemma new_events_eq: "trace s' = trace s @ evs \<Longrightarrow> new_events s s' = evs"
  by (simp add: new_events_def)

lemma emit_simps [simp]:
  "trace (emit e s) = trace s @ [e]"
  "config (emit e s) = config s"
  "distinct_id (emit e s) = distinct_id s"
  "identify_called_flag (emit e s) = identify_called_flag s"
  "persistence (emit e s) = persistence s"
  "vars (emit e s) = vars s"
  by (simp_all add: emit_def)

lemma composed_delete:
  "obj_set (obj_set [(''$delete'', d)] ''$token'' t) ''$distinct_id'' d' =
     [(''$delete'', d), (''$token'', t), (''$distinct_id'', d')]"
  by (simp add: obj_set_def)

section \<open>The payload of a call\<close>

text \<open>
  For a map, the payload keeps the keys that are not reserved and no others (lines 38-42,
  91-95, 210-214, 254-258), and \<^verbatim>\<open>unset\<close> keeps the names that are not reserved.
\<close>

lemma map_keys_are_filtered:
  "fst ` set (fold (\<lambda>(k, v) acc. if \<not> is_reserved_property (JStr k) then obj_set acc k (f v) else acc)
                kvs acc) =
   fst ` set acc \<union> {k \<in> fst ` set kvs. \<not> is_reserved_property (JStr k)}"
proof (induction kvs arbitrary: acc)
  case Nil
  show ?case by simp
next
  case (Cons kv kvs)
  obtain k v where kv: "kv = (k, v)" by (cases kv)
  show ?case
    by (auto simp add: kv Cons.IH obj_set_def dom_update)
qed

lemma unset_names_are_filtered:
  "fold (\<lambda>k acc. if \<not> is_reserved_property k then acc @ [k] else acc) ks acc =
   acc @ filter (\<lambda>k. \<not> is_reserved_property k) ks"
  by (induction ks arbitrary: acc) simp_all

text \<open>
  For a map, \<^verbatim>\<open>increment\<close> keeps the values that are not reserved and parse to a number,
  and writes one error for each value that is not reserved and does not (lines 164-172).
\<close>

lemma increment_map_drops_and_reports:
  "fst (fold (increment_each env) kvs (acc, s)) =
     fold (\<lambda>(k, v) acc. obj_set acc k v)
       (filter (\<lambda>(k, v). \<not> is_reserved_property (JStr k) \<and> parseFloat env v \<noteq> None) kvs) acc \<and>
   trace (snd (fold (increment_each env) kvs (acc, s))) =
     trace s @ map (\<lambda>kv. Console_error [JStr ''Invalid increment value passed to mixpanel.people.increment - must be a number''])
       (filter (\<lambda>(k, v). \<not> is_reserved_property (JStr k) \<and> parseFloat env v = None) kvs)"
proof (induction kvs arbitrary: acc s)
  case Nil
  show ?case by simp
next
  case (Cons kv kvs)
  obtain k v where kv: "kv = (k, v)" by (cases kv)
  have one: "increment_each env (k, v) (acc, s) =
     (if \<not> is_reserved_property (JStr k)
      then (if parseFloat env v = None
            then (acc, emit (Console_error [JStr ''Invalid increment value passed to mixpanel.people.increment - must be a number'']) s)
            else (obj_set acc k v, s))
      else (acc, s))"
    by (simp add: increment_each_def)
  show ?case
    unfolding kv fold_Cons comp_apply one
    by (simp add: Cons.IH del: fold_simps)
qed

text \<open>
  The iteration over a map (lines 38-42, 91-95, 210-214, 254-258) builds the map of the
  properties that are kept.
\<close>

lemma each_builds_kept:
  "fold (\<lambda>(k, v) acc. if \<not> is_reserved_property (JStr k) then obj_set acc k (f v) else acc) kvs acc =
   fold (\<lambda>kv obj. obj_set obj (fst kv) (snd kv)) (map (\<lambda>kv. (fst kv, f (snd kv))) (kept kvs)) acc"
  by (induction kvs arbitrary: acc) (simp_all add: kept_def split: prod.splits)

lemma each_as_map:
  "fold (\<lambda>(k, v) acc. if \<not> is_reserved_property (JStr k) then obj_set acc k v else acc) kvs [] =
   as_map (kept kvs)"
  using each_builds_kept [of "\<lambda>v. v" kvs "[]"] by (simp add: as_map_def)

lemma each_as_map_union:
  "fold (\<lambda>(k, v) acc. if \<not> is_reserved_property (JStr k) then obj_set acc k (to_list v) else acc) kvs [] =
   as_map (map (\<lambda>kv. (fst kv, if isArray (snd kv) then snd kv else JArr [snd kv])) (kept kvs))"
  using each_builds_kept [of to_list kvs "[]"] by (simp add: as_map_def to_list_def)

lemma increment_each_as_map:
  "fst (fold (increment_each env) kvs ([], s)) =
   as_map (filter (\<lambda>kv. parseFloat env (snd kv) \<noteq> None) (kept kvs))"
proof -
  have "filter (\<lambda>(k, v). \<not> is_reserved_property (JStr k) \<and> parseFloat env v \<noteq> None) kvs =
        filter (\<lambda>kv. parseFloat env (snd kv) \<noteq> None) (kept kvs)"
    by (simp add: kept_def case_prod_unfold conj_commute)
  moreover have "(\<lambda>(k, v) acc. obj_set acc k v) = (\<lambda>kv obj. obj_set obj (fst kv) (snd kv))"
    by (simp add: fun_eq_iff)
  ultimately show ?thesis
    using increment_map_drops_and_reports [of env kvs "[]" s] by (simp add: as_map_def)
qed

section \<open>Deleting the profile\<close>

text \<open>
  C5. \<^verbatim>\<open>delete_user\<close> before identity resolution reports a usage error on the console,
  makes no transport call, queues nothing and returns \<^verbatim>\<open>undefined\<close>; after resolution it
  issues exactly one request, whose wire form encodes the object carrying the resolved
  distinct id under \<^verbatim>\<open>$delete\<close>.
\<close>

theorem delete_user_needs_identity:
  "(\<not> identify_called s \<longrightarrow>
      fst (delete_user env s) = Return JUndefined \<and>
      new_events s (snd (delete_user env s)) =
        [Console_error [JStr ''mixpanel.people.delete_user() requires you to call identify() first'']] \<and>
      persistence (snd (delete_user env s)) = persistence s) \<and>
   (identify_called s \<longrightarrow>
      filter is_request (new_events s (snd (delete_user env s))) =
        [Send_request (JStr (to_string env (get_config s ''api_host'') @ ''/engage/''))
           (wire_request env (encodeDates env (JObj
              [(''$delete'', distinct_id s), (''$token'', get_config s ''token''),
               (''$distinct_id'', distinct_id s)])))
           (PreparedCb JUndefined (truncate (encodeDates env (JObj
              [(''$delete'', distinct_id s), (''$token'', get_config s ''token''),
               (''$distinct_id'', distinct_id s)])) 255))] \<and>
      filter is_enqueue (new_events s (snd (delete_user env s))) = [])"
proof (intro conjI impI)
  assume u: "\<not> identify_called s"
  show "fst (delete_user env s) = Return JUndefined"
    using u by (simp add: delete_user_def)
  show "new_events s (snd (delete_user env s)) =
        [Console_error [JStr ''mixpanel.people.delete_user() requires you to call identify() first'']]"
    using u by (intro new_events_eq) (simp add: delete_user_def)
  show "persistence (snd (delete_user env s)) = persistence s"
    using u by (simp add: delete_user_def)
next
  assume r: "identify_called s"
  let ?d = "JObj [(''$delete'', distinct_id s), (''$token'', get_config s ''token''),
               (''$distinct_id'', distinct_id s)]"
  have t: "trace (snd (delete_user env s)) = trace s @
     [Console_log (JStr ''MIXPANEL PEOPLE REQUEST:''),
      Console_log (truncate (encodeDates env ?d) 255),
      Send_request (JStr (to_string env (get_config s ''api_host'') @ ''/engage/''))
           (wire_request env (encodeDates env ?d))
           (PreparedCb JUndefined (truncate (encodeDates env ?d) 255))]"
    using r by (simp add: delete_user_def send_request_def composed_delete Let_def wire_request_def get_config_def)
  show "filter is_request (new_events s (snd (delete_user env s))) =
        [Send_request (JStr (to_string env (get_config s ''api_host'') @ ''/engage/''))
           (wire_request env (encodeDates env ?d))
           (PreparedCb JUndefined (truncate (encodeDates env ?d) 255))]"
    by (simp add: new_events_eq [OF t])
  show "filter is_enqueue (new_events s (snd (delete_user env s))) = []"
    by (simp add: new_events_eq [OF t])
qed

theorem delete_user_needs_identity_witness:
  "\<not> identify_called anonymous \<and>
   fst (delete_user plain_env anonymous) = Return JUndefined \<and>
   new_events anonymous (snd (delete_user plain_env anonymous)) =
     [Console_error [JStr ''mixpanel.people.delete_user() requires you to call identify() first'']] \<and>
   identify_called identified \<and>
   filter is_request (new_events identified (snd (delete_user plain_env identified))) =
     [Send_request (JStr ''https://api.example.com/engage/'')
        (wire_request plain_env (JObj [(''$delete'', JStr ''user-7''), (''$token'', JStr ''t0k3n''),
               (''$distinct_id'', JStr ''user-7'')]))
        (PreparedCb JUndefined (JObj [(''$delete'', JStr ''user-7''), (''$token'', JStr ''t0k3n''),
               (''$distinct_id'', JStr ''user-7'')]))]"
proof -
  have a: "\<not> identify_called anonymous"
    by (simp add: identify_called_def anonymous_def)
  have i: "identify_called identified"
    by (simp add: identify_called_def identified_def anonymous_def)
  show ?thesis
    using a i delete_user_needs_identity [of anonymous plain_env]
      delete_user_needs_identity [of identified plain_env]
    by (simp add: identified_def anonymous_def get_config_def plain_env_def)
qed

section \<open>The union encoding\<close>

lemma to_list_idem: "to_list (to_list v) = to_list v"
  by (simp add: to_list_def)

lemma union_fold_encoded:
  "fold (\<lambda>(k, v) acc. if \<not> is_reserved_property (JStr k) then obj_set acc k (to_list v) else acc)
     (map (\<lambda>kv. (fst kv, to_list (snd kv))) kvs) acc =
   fold (\<lambda>(k, v) acc. if \<not> is_reserved_property (JStr k) then obj_set acc k (to_list v) else acc)
     kvs acc"
  by (induction kvs arbitrary: acc) (simp_all add: to_list_idem split: prod.splits)

lemma obj_set_subset: "set (obj_set obj k v) \<subseteq> insert (k, v) (set obj)"
  unfolding obj_set_def by (induction obj) auto

lemma as_map_values:
  "snd ` set (fold (\<lambda>kv obj. obj_set obj (fst kv) (snd kv)) xs acc) \<subseteq> snd ` set acc \<union> snd ` set xs"
proof (induction xs arbitrary: acc)
  case Nil
  show ?case by simp
next
  case (Cons x xs)
  have "snd ` set (fold (\<lambda>kv obj. obj_set obj (fst kv) (snd kv)) xs (obj_set acc (fst x) (snd x))) \<subseteq>
        snd ` set (obj_set acc (fst x) (snd x)) \<union> snd ` set xs"
    by (rule Cons.IH)
  also have "snd ` set (obj_set acc (fst x) (snd x)) \<subseteq> insert (snd x) (snd ` set acc)"
    using obj_set_subset [of acc "fst x" "snd x"] by force
  finally show ?case by auto
qed

text \<open>
  C8. \<^verbatim>\<open>union\<close> sends, for a single name, the name bound to the encoded value, and for a
  map, the map of its properties that are not reserved, each value encoded (lines 256 and
  261); the encoding \<^verbatim>\<open>_.isArray(v) ? v : [v]\<close> turns a value that is not a sequence into
  the one-element sequence holding it and leaves a sequence as it is, so every value of
  the payload is a sequence. Encoding twice is encoding once: \<^verbatim>\<open>union\<close> of already encoded
  arguments, by name or by map, is the same call.
\<close>

theorem union_encoding_idempotent:
  "isArray (to_list v) \<and>
   (\<not> isArray v \<longrightarrow> to_list v = JArr [v]) \<and>
   (isArray v \<longrightarrow> to_list v = v) \<and>
   to_list (to_list v) = to_list v \<and>
   (\<not> isObject list_name \<longrightarrow>
      union_people env list_name v callback s =
        send_request env [(UNION_ACTION, JObj [(to_string env list_name, to_list v)])] callback s \<and>
      union_people env list_name (to_list v) callback s = union_people env list_name v callback s) \<and>
   union_people env (JObj (map (\<lambda>kv. (fst kv, to_list (snd kv))) kvs)) callback callback0 s =
     union_people env (JObj kvs) callback callback0 s \<and>
   (isObject list_name \<longrightarrow>
      union_people env list_name callback callback0 s =
        send_request env
          [(UNION_ACTION,
            JObj (as_map (map (\<lambda>kv. (fst kv, if isArray (snd kv) then snd kv else JArr [snd kv]))
                            (kept (own_props env list_name)))))]
          callback s) \<and>
   list_all (\<lambda>kv. isArray (snd kv))
     (as_map (map (\<lambda>kv. (fst kv, if isArray (snd kv) then snd kv else JArr [snd kv])) (kept kvs)))"
proof (intro conjI impI)
  show "isArray (to_list v)" by (simp add: to_list_def)
  show "to_list v = JArr [v]" if "\<not> isArray v" using that by (simp add: to_list_def)
  show "to_list v = v" if "isArray v" using that by (simp add: to_list_def)
  show "to_list (to_list v) = to_list v" by (rule to_list_idem)
  show "union_people env list_name v callback s =
        send_request env [(UNION_ACTION, JObj [(to_string env list_name, to_list v)])] callback s"
    if "\<not> isObject list_name" using that by (simp add: union_people_def obj_set_def)
  show "union_people env list_name (to_list v) callback s = union_people env list_name v callback s"
    if "\<not> isObject list_name" using that by (simp add: union_people_def to_list_idem)
  show "union_people env (JObj (map (\<lambda>kv. (fst kv, to_list (snd kv))) kvs)) callback callback0 s =
     union_people env (JObj kvs) callback callback0 s"
    by (simp add: union_people_def union_fold_encoded)
  show "union_people env list_name callback callback0 s =
        send_request env
          [(UNION_ACTION,
            JObj (as_map (map (\<lambda>kv. (fst kv, if isArray (snd kv) then snd kv else JArr [snd kv]))
                            (kept (own_props env list_name)))))]
          callback s"
    if "isObject list_name"
    unfolding union_people_def Let_def each_as_map_union
    using that by (simp add: obj_set_def [of "[]"])
  have "snd ` set (as_map (map (\<lambda>kv. (fst kv, if isArray (snd kv) then snd kv else JArr [snd kv])) (kept kvs)))
        \<subseteq> snd ` set (map (\<lambda>kv. (fst kv, if isArray (snd kv) then snd kv else JArr [snd kv])) (kept kvs))"
    using as_map_values [of "map (\<lambda>kv. (fst kv, if isArray (snd kv) then snd kv else JArr [snd kv])) (kept kvs)" "[]"]
    by (simp add: as_map_def)
  then show "list_all (\<lambda>kv. isArray (snd kv))
     (as_map (map (\<lambda>kv. (fst kv, if isArray (snd kv) then snd kv else JArr [snd kv])) (kept kvs)))"
    unfolding list_all_iff by (auto split: if_splits)
qed

theorem union_encoding_idempotent_witness:
  "to_list (JStr ''x'') = JArr [JStr ''x''] \<and>
   to_list (JArr [JStr ''x'', JStr ''y'']) = JArr [JStr ''x'', JStr ''y''] \<and>
   to_list (to_list (JStr ''x'')) = JArr [JStr ''x''] \<and>
   union_people plain_env (JStr ''tag'') (JStr ''x'') JUndefined anonymous =
     send_request plain_env [(UNION_ACTION, JObj [(''tag'', JArr [JStr ''x''])])] JUndefined anonymous \<and>
   union_people plain_env (JStr ''tag'') (JArr [JStr ''x'']) JUndefined anonymous =
     union_people plain_env (JStr ''tag'') (JStr ''x'') JUndefined anonymous \<and>
   isObject (JObj [(''list1'', JStr ''bob''), (''$token'', JStr ''t''),
                   (''list2'', JArr [JStr ''a'', JStr ''b''])]) \<and>
   union_people plain_env
       (JObj [(''list1'', JStr ''bob''), (''$token'', JStr ''t''),
              (''list2'', JArr [JStr ''a'', JStr ''b''])]) (JFun 0) JUndefined anonymous =
     send_request plain_env
       [(UNION_ACTION, JObj [(''list1'', JArr [JStr ''bob'']),
                             (''list2'', JArr [JStr ''a'', JStr ''b''])])] (JFun 0) anonymous \<and>
   union_people plain_env
       (JObj [(''list1'', JArr [JStr ''bob'']), (''list2'', JArr [JStr ''a'', JStr ''b''])])
       (JFun 0) JUndefined anonymous =
     union_people plain_env
       (JObj [(''list1'', JStr ''bob''), (''list2'', JArr [JStr ''a'', JStr ''b''])])
       (JFun 0) JUndefined anonymous"
proof -
  let ?map = "JObj [(''list1'', JStr ''bob''), (''$token'', JStr ''t''),
                    (''list2'', JArr [JStr ''a'', JStr ''b''])]"
  have m: "as_map (map (\<lambda>kv. (fst kv, if isArray (snd kv) then snd kv else JArr [snd kv]))
             (kept [(''list1'', JStr ''bob''), (''$token'', JStr ''t''),
                    (''list2'', JArr [JStr ''a'', JStr ''b''])])) =
           [(''list1'', JArr [JStr ''bob'']), (''list2'', JArr [JStr ''a'', JStr ''b''])]"
    by (simp add: as_map_def kept_def is_reserved_property_def obj_set_def)
  from union_encoding_idempotent [of "JStr ''x''" "JStr ''tag''" plain_env JUndefined anonymous "[]" JUndefined]
    union_encoding_idempotent [of "JArr [JStr ''x'', JStr ''y'']" "JStr ''tag''" plain_env JUndefined anonymous "[]" JUndefined]
    union_encoding_idempotent [of "JStr ''x''" ?map plain_env "JFun 0" anonymous
      "[(''list1'', JStr ''bob''), (''list2'', JArr [JStr ''a'', JStr ''b''])]" JUndefined]
  show ?thesis
    by (simp add: to_list_def m)
qed

section \<open>Charges\<close>

lemma fold_obj_set_map_of:
  "map_of (fold (\<lambda>(k, v) acc'. obj_set acc' k v) kvs acc) = map_of acc ++ map_of (rev kvs)"
proof (induction kvs arbitrary: acc)
  case Nil
  show ?case by simp
next
  case (Cons kv kvs)
  obtain k v where kv: "kv = (k, v)" by (cases kv)
  have "map_of (fold (\<lambda>(k, v) acc'. obj_set acc' k v) (kv # kvs) acc) =
        map_of (obj_set acc k v) ++ map_of (rev kvs)"
    using Cons.IH [of "obj_set acc k v"] by (simp add: kv)
  also have "map_of (obj_set acc k v) = (map_of acc)(k \<mapsto> v)"
    by (simp add: obj_set_def update_conv')
  also have "(map_of acc)(k \<mapsto> v) ++ map_of (rev kvs) = map_of acc ++ map_of (rev (kv # kvs))"
    by (simp add: kv map_add_upd_left)
  finally show ?case .
qed

lemma extend_one_obj:
  "map_of (extend env obj [JObj kvs]) = map_of obj ++ map_of (rev kvs)"
  by (simp add: extend_def fold_obj_set_map_of)

lemma has_key_map_of: "has_key k kvs \<longleftrightarrow> map_of kvs k \<noteq> None"
  by (simp add: has_key_def map_of_eq_None_iff)

lemma map_of_rev_distinct:
  "distinct (map fst xs) \<Longrightarrow> map_of (rev xs) = map_of xs"
proof (induction xs)
  case Nil
  show ?case by simp
next
  case (Cons x xs)
  then have n: "map_of xs (fst x) = None"
    by (simp add: map_of_eq_None_iff)
  have "map_of (rev (x # xs)) = map_of [x] ++ map_of xs"
    using Cons by simp
  also have "\<dots> = map_of (x # xs)"
    using n by (cases x) (auto simp add: map_add_def fun_eq_iff split: option.splits)
  finally show ?case .
qed

lemma amount_binding:
  assumes "distinct (map fst kvs)"
  shows "obj_get (extend env [(''$amount'', a)] [JObj kvs]) k =
           (if has_key k kvs then obj_get kvs k else if k = ''$amount'' then a else JUndefined)"
proof -
  have "map_of (rev kvs) = map_of kvs"
    using assms by (rule map_of_rev_distinct)
  then show ?thesis
    by (auto simp add: obj_get_def extend_one_obj has_key_map_of map_add_def split: option.splits)
qed

text \<open>
  C10, as amended. \<^verbatim>\<open>track_charge(amount, properties, callback)\<close> with an amount that is
  not a number and that \<^verbatim>\<open>parseFloat\<close> turns into NaN reports one error, makes no request,
  queues nothing and returns \<^verbatim>\<open>undefined\<close>. With a number, or with an amount that parses
  to one, it is the call \<^verbatim>\<open>append('$transactions', m, callback)\<close> where \<open>m\<close> is
  \<^verbatim>\<open>{'$amount': amount}\<close> extended with \<open>properties\<close>: every key of \<open>properties\<close> carries the
  value \<open>properties\<close> gives it, an own \<^verbatim>\<open>$amount\<close> included, and \<^verbatim>\<open>$amount\<close> is bound to the
  (parsed) amount when \<open>properties\<close> has no such key.
\<close>

theorem track_charge_appends:
  "(\<not> isNumber amount \<and> parseFloat env amount = None \<longrightarrow>
      track_charge env amount properties callback s =
        (Return JUndefined,
         emit (Console_error [JStr ''Invalid value passed to mixpanel.people.track_charge - must be a number'']) s)) \<and>
   (isNumber amount \<longrightarrow>
      track_charge env amount properties callback s =
        append_people env (JStr ''$transactions'')
          (JObj (extend env [(''$amount'', amount)] [properties])) callback s) \<and>
   (\<not> isNumber amount \<and> parseFloat env amount = Some n \<longrightarrow>
      track_charge env amount properties callback s =
        append_people env (JStr ''$transactions'')
          (JObj (extend env [(''$amount'', JNum n)] [properties])) callback s) \<and>
   (distinct (map fst kvs) \<longrightarrow>
      obj_get (extend env [(''$amount'', a)] [JObj kvs]) k =
        (if has_key k kvs then obj_get kvs k else if k = ''$amount'' then a else JUndefined))"
  by (simp add: track_charge_def parse_float_def isNaN_def amount_binding)

theorem track_charge_appends_witness:
  "track_charge plain_env (JStr ''oops'') (JObj [(''sku'', JStr ''A1'')]) (JFun 0) anonymous =
     (Return JUndefined,
      emit (Console_error [JStr ''Invalid value passed to mixpanel.people.track_charge - must be a number'']) anonymous) \<and>
   track_charge plain_env (JNum 50) (JObj [(''sku'', JStr ''A1'')]) (JFun 0) anonymous =
     append_people plain_env (JStr ''$transactions'')
       (JObj [(''$amount'', JNum 50), (''sku'', JStr ''A1'')]) (JFun 0) anonymous \<and>
   track_charge plain_env (JStr ''12'') (JObj [(''sku'', JStr ''A1'')]) (JFun 0) anonymous =
     append_people plain_env (JStr ''$transactions'')
       (JObj [(''$amount'', JNum 12), (''sku'', JStr ''A1'')]) (JFun 0) anonymous \<and>
   obj_get (extend plain_env [(''$amount'', JNum 50)] [JObj [(''sku'', JStr ''A1'')]]) ''$amount'' = JNum 50"
proof -
  have p: "parseFloat plain_env (JStr ''oops'') = None" "parseFloat plain_env (JStr ''12'') = Some 12"
    by (simp_all add: plain_env_def leading_number_def)
  have e: "extend plain_env [(''$amount'', a)] [JObj [(''sku'', JStr ''A1'')]] =
           [(''$amount'', a), (''sku'', JStr ''A1'')]" for a
    by (simp add: extend_def obj_set_def)
  show ?thesis
    using track_charge_appends [of "JStr ''oops''" plain_env "JObj [(''sku'', JStr ''A1'')]" "JFun 0" anonymous 0 "[(''sku'', JStr ''A1'')]" "JNum 50" "''$amount''"]
      track_charge_appends [of "JNum 50" plain_env "JObj [(''sku'', JStr ''A1'')]" "JFun 0" anonymous 0 "[(''sku'', JStr ''A1'')]" "JNum 50" "''$amount''"]
      track_charge_appends [of "JStr ''12''" plain_env "JObj [(''sku'', JStr ''A1'')]" "JFun 0" anonymous 12 "[(''sku'', JStr ''A1'')]" "JNum 50" "''$amount''"]
    by (simp add: p e has_key_def)
qed

text \<open>
  C10, as stated, fails where \<open>properties\<close> has a key \<^verbatim>\<open>$amount\<close> of its own:
  \<^verbatim>\<open>track_charge(50, {'$amount': 99})\<close> appends a transaction whose \<^verbatim>\<open>$amount\<close> is 99, which
  is not the call \<^verbatim>\<open>append('$transactions', m)\<close> for the \<open>m\<close> that binds \<^verbatim>\<open>$amount\<close> to 50.
\<close>

theorem track_charge_amount_overridden:
  "fst (track_charge plain_env (JNum 50) (JObj [(''$amount'', JNum 99)]) JUndefined anonymous) =
     Return (JObj [(''$append'', JObj [(''$transactions'', JObj [(''$amount'', JNum 99)])]),
                   (''$token'', JStr ''t0k3n''), (''$distinct_id'', JStr ''device-1'')]) \<and>
   track_charge plain_env (JNum 50) (JObj [(''$amount'', JNum 99)]) JUndefined anonymous \<noteq>
     append_people plain_env (JStr ''$transactions'')
       (JObj (obj_set [(''$amount'', JNum 99)] ''$amount'' (JNum 50))) JUndefined anonymous"
proof -
  have l: "fst (track_charge plain_env (JNum 50) (JObj [(''$amount'', JNum 99)]) JUndefined anonymous) =
     Return (JObj [(''$append'', JObj [(''$transactions'', JObj [(''$amount'', JNum 99)])]),
                   (''$token'', JStr ''t0k3n''), (''$distinct_id'', JStr ''device-1'')])"
    by (simp add: track_charge_def append_people_def send_request_def extend_def obj_set_def
        Let_def identify_called_def anonymous_def plain_env_def get_config_def isUndefined_def
        APPEND_ACTION_def)
  have r: "fst (append_people plain_env (JStr ''$transactions'')
       (JObj (obj_set [(''$amount'', JNum 99)] ''$amount'' (JNum 50))) JUndefined anonymous) =
     Return (JObj [(''$append'', JObj [(''$transactions'', JObj [(''$amount'', JNum 50)])]),
                   (''$token'', JStr ''t0k3n''), (''$distinct_id'', JStr ''device-1'')])"
    by (simp add: append_people_def send_request_def extend_def obj_set_def
        Let_def identify_called_def anonymous_def plain_env_def get_config_def isUndefined_def
        APPEND_ACTION_def)
  from l r show ?thesis by auto
qed

section \<open>Mutations before identity is resolved\<close>

lemma add_to_people_queue_simps [simp]:
  "trace (add_to_people_queue env a d s) = trace s @ [Add_to_people_queue a d]"
  "config (add_to_people_queue env a d s) = config s"
  "distinct_id (add_to_people_queue env a d s) = distinct_id s"
  "identify_called_flag (add_to_people_queue env a d s) = identify_called_flag s"
  "vars (add_to_people_queue env a d s) = vars s"
  by (simp_all add: add_to_people_queue_def)

lemma update_referrer_info_simps [simp]:
  "trace (update_referrer_info env r s) = trace s @ [Update_referrer_info r]"
  "config (update_referrer_info env r s) = config s"
  "distinct_id (update_referrer_info env r s) = distinct_id s"
  "identify_called_flag (update_referrer_info env r s) = identify_called_flag s"
  "vars (update_referrer_info env r s) = vars s"
  by (simp_all add: update_referrer_info_def)

lemma arg_simps [simp]:
  "arg (x # xs) 0 = x"
  "arg [x, y] 1 = y"
  "arg [x] 1 = JUndefined"
  by (simp_all add: arg_def)

text \<open>
  Applying a function value makes no transport call, and queues nothing unless its first
  argument is the result 0.
\<close>

lemma invoke_quiet:
  "\<exists>evs. trace (snd (invoke env f args s)) = trace s @ evs \<and>
         filter is_request evs = [] \<and>
         (arg args 0 \<noteq> JNum 0 \<longrightarrow> filter is_enqueue evs = [])"
proof (induction env f args s rule: invoke.induct)
  case (1 env n args s)
  show ?case by simp
next
  case (2 env action queued_data callback args s)
  let ?s1 = "if arg args 0 = JNum 0 then add_to_people_queue env action queued_data s else s"
  show ?case
  proof (cases "isUndefined callback")
    case True
    then show ?thesis by (simp add: Let_def)
  next
    case False
    from 2 [OF refl refl refl False]
    obtain evs where e: "trace (snd (invoke env callback [arg args 0, arg args 1] ?s1)) = trace ?s1 @ evs"
      "filter is_request evs = []" "arg args 0 \<noteq> JNum 0 \<longrightarrow> filter is_enqueue evs = []"
      by auto
    have "snd (invoke env (FlushOneQueueCb action queued_data callback) args s) =
          snd (invoke env callback [arg args 0, arg args 1] ?s1)"
      using False by (simp add: Let_def split: prod.splits completion.splits)
    with e show ?thesis by auto
  qed
next
  case (3 env cell append_callback args s)
  let ?s1 = "if arg args 0 = JNum 0
             then add_to_people_queue env APPEND_ACTION (read_var s cell) s else s"
  show ?case
  proof (cases "isUndefined append_callback")
    case True
    then show ?thesis by (simp add: Let_def)
  next
    case False
    from 3 [OF refl refl refl False]
    obtain evs where e: "trace (snd (invoke env append_callback [arg args 0, arg args 1] ?s1)) = trace ?s1 @ evs"
      "filter is_request evs = []" "arg args 0 \<noteq> JNum 0 \<longrightarrow> filter is_enqueue evs = []"
      by auto
    have "snd (invoke env (FlushAppendCb cell append_callback) args s) =
          snd (invoke env append_callback [arg args 0, arg args 1] ?s1)"
      using False by (simp add: Let_def split: prod.splits completion.splits)
    with e show ?thesis by auto
  qed
next
  case (4 env callback data args s)
  show ?case
  proof (cases "isUndefined callback")
    case True
    then show ?thesis by simp
  next
    case False
    from 4 [OF False]
    obtain evs where e: "trace (snd (invoke env callback [arg args 0, data] s)) = trace s @ evs"
      "filter is_request evs = []" "arg args 0 \<noteq> JNum 0 \<longrightarrow> filter is_enqueue evs = []"
      by auto
    have "snd (invoke env (PreparedCb callback data) args s) =
          snd (invoke env callback [arg args 0, data] s)"
      using False by (simp split: prod.splits completion.splits)
    with e show ?thesis by auto
  qed
qed simp_all

lemma action_kind_known:
  "action_kind m \<in> {SET_ACTION, SET_ONCE_ACTION, UNSET_ACTION, ADD_ACTION, APPEND_ACTION, UNION_ACTION}"
  by (cases m) simp_all

lemma composed_action:
  assumes "a \<in> {SET_ACTION, SET_ONCE_ACTION, UNSET_ACTION, ADD_ACTION, APPEND_ACTION, UNION_ACTION}"
  shows "obj_set (obj_set [(a, p)] ''$token'' t) ''$distinct_id'' d =
           [(a, p), (''$token'', t), (''$distinct_id'', d)]"
    and "enqueue env [(a, p), (''$token'', t), (''$distinct_id'', d)] s =
           add_to_people_queue env a (JObj [(a, p), (''$token'', t), (''$distinct_id'', d)]) s"
  using assms by (auto simp add: action_defs obj_set_def enqueue_def has_key_def)

lemma deferred_not_failure: "deferred_result s \<noteq> JNum 0"
  by (simp add: deferred_result_def)

lemma send_request_unresolved:
  assumes "\<not> identify_called s"
    and "a \<in> {SET_ACTION, SET_ONCE_ACTION, UNSET_ACTION, ADD_ACTION, APPEND_ACTION, UNION_ACTION}"
  shows "send_request env [(a, p)] callback s =
     (let data = JObj [(a, p), (''$token'', get_config s ''token''), (''$distinct_id'', distinct_id s)];
          s1 = add_to_people_queue env a data s
      in if isUndefined callback then (Return (truncate (encodeDates env data) 255), s1)
         else (case invoke env callback [deferred_result s] s1 of
                 (Throw e, s2) \<Rightarrow> (Throw e, s2)
               | (Return v, s2) \<Rightarrow> (Return (truncate (encodeDates env data) 255), s2)))"
  using assms(1)
  by (simp add: send_request_def composed_action [OF assms(2)] Let_def deferred_result_def
      get_config_def)

lemma send_request_unresolved_trace:
  assumes "\<not> identify_called s"
    and "a \<in> {SET_ACTION, SET_ONCE_ACTION, UNSET_ACTION, ADD_ACTION, APPEND_ACTION, UNION_ACTION}"
  shows "\<exists>evs. trace (snd (send_request env [(a, p)] callback s)) =
           trace s @ Add_to_people_queue a
             (JObj [(a, p), (''$token'', get_config s ''token''), (''$distinct_id'', distinct_id s)]) # evs \<and>
           filter is_request evs = [] \<and> filter is_enqueue evs = []"
proof (cases "isUndefined callback")
  case True
  then show ?thesis
    by (simp add: send_request_unresolved [OF assms] Let_def)
next
  case False
  let ?data = "JObj [(a, p), (''$token'', get_config s ''token''), (''$distinct_id'', distinct_id s)]"
  let ?s1 = "add_to_people_queue env a ?data s"
  obtain evs where e: "trace (snd (invoke env callback [deferred_result s] ?s1)) = trace ?s1 @ evs"
    "filter is_request evs = []" "filter is_enqueue evs = []"
    using invoke_quiet [of env callback "[deferred_result s]" ?s1] deferred_not_failure [of s]
    by auto
  have "snd (send_request env [(a, p)] callback s) = snd (invoke env callback [deferred_result s] ?s1)"
    using False
    by (simp add: send_request_unresolved [OF assms] Let_def split: prod.splits completion.splits)
  with e show ?thesis by simp
qed

lemma send_request_unresolved_result:
  assumes "\<not> identify_called s"
    and "a \<in> {SET_ACTION, SET_ONCE_ACTION, UNSET_ACTION, ADD_ACTION, APPEND_ACTION, UNION_ACTION}"
    and "callback = JUndefined \<or> callback = JFun n"
  shows "fst (send_request env [(a, p)] callback s) =
           Return (truncate (encodeDates env
             (JObj [(a, p), (''$token'', get_config s ''token''), (''$distinct_id'', distinct_id s)])) 255)"
    and "trace (snd (send_request env [(a, p)] callback s)) =
           trace s @ Add_to_people_queue a
             (JObj [(a, p), (''$token'', get_config s ''token''), (''$distinct_id'', distinct_id s)]) #
           (if callback = JFun n then [Call n [deferred_result s]] else [])"
  using assms(3)
  by (auto simp add: send_request_unresolved [OF assms(1,2)] Let_def isUndefined_def)

text \<open>
  What an operation does before it reaches \<^verbatim>\<open>_send_request\<close>: it may write to the console
  and refresh the referrer, and nothing else.
\<close>

lemma increment_each_quiet:
  "\<exists>pre. trace (snd (fold (increment_each env) kvs (acc, s))) = trace s @ pre \<and>
     filter is_request pre = [] \<and> filter is_enqueue pre = [] \<and> filter is_call pre = [] \<and>
     config (snd (fold (increment_each env) kvs (acc, s))) = config s \<and>
     distinct_id (snd (fold (increment_each env) kvs (acc, s))) = distinct_id s \<and>
     identify_called_flag (snd (fold (increment_each env) kvs (acc, s))) = identify_called_flag s"
proof (induction kvs arbitrary: acc s)
  case Nil
  show ?case by simp
next
  case (Cons kv kvs)
  obtain acc1 s1 where st: "increment_each env kv (acc, s) = (acc1, s1)"
    by (cases "increment_each env kv (acc, s)")
  have one: "\<exists>pre. trace s1 = trace s @ pre \<and>
     filter is_request pre = [] \<and> filter is_enqueue pre = [] \<and> filter is_call pre = []"
    and same: "config s1 = config s" "distinct_id s1 = distinct_id s"
      "identify_called_flag s1 = identify_called_flag s"
    using st by (auto simp add: increment_each_def split: prod.splits if_splits)
  from one obtain pre1 where p1: "trace s1 = trace s @ pre1"
    "filter is_request pre1 = []" "filter is_enqueue pre1 = []" "filter is_call pre1 = []"
    by blast
  from Cons [of acc1 s1] obtain pre2 where p2:
    "trace (snd (fold (increment_each env) kvs (acc1, s1))) = trace s1 @ pre2"
    "filter is_request pre2 = []" "filter is_enqueue pre2 = []" "filter is_call pre2 = []"
    "config (snd (fold (increment_each env) kvs (acc1, s1))) = config s1"
    "distinct_id (snd (fold (increment_each env) kvs (acc1, s1))) = distinct_id s1"
    "identify_called_flag (snd (fold (increment_each env) kvs (acc1, s1))) = identify_called_flag s1"
    by blast
  have "fold (increment_each env) (kv # kvs) (acc, s) = fold (increment_each env) kvs (acc1, s1)"
    by (simp add: st)
  with p1 p2 same show ?case
    by (intro exI [of _ "pre1 @ pre2"]) simp
qed

lemma reaches_intro:
  assumes "perform env m s = send_request env [(action_kind m, p)] (supplied_callback m) s1"
    and "\<exists>pre. trace s1 = trace s @ pre \<and>
     filter is_request pre = [] \<and> filter is_enqueue pre = [] \<and> filter is_call pre = []"
    and "config s1 = config s" "distinct_id s1 = distinct_id s"
      "identify_called_flag s1 = identify_called_flag s"
  shows "\<exists>p s1 pre. perform env m s = send_request env [(action_kind m, p)] (supplied_callback m) s1 \<and>
     trace s1 = trace s @ pre \<and>
     filter is_request pre = [] \<and> filter is_enqueue pre = [] \<and> filter is_call pre = [] \<and>
     config s1 = config s \<and> distinct_id s1 = distinct_id s \<and>
     identify_called_flag s1 = identify_called_flag s"
  using assms by blast

lemma perform_reaches_send_request:
  "\<exists>p s1 pre. perform env m s = send_request env [(action_kind m, p)] (supplied_callback m) s1 \<and>
     trace s1 = trace s @ pre \<and>
     filter is_request pre = [] \<and> filter is_enqueue pre = [] \<and> filter is_call pre = [] \<and>
     config s1 = config s \<and> distinct_id s1 = distinct_id s \<and>
     identify_called_flag s1 = identify_called_flag s"
proof (cases m)
  case (Set pr val callback)
  define s1 where "s1 = (if truthy (get_config s ''save_referrer'')
                then update_referrer_info env (document_referrer env) s else s)"
  define p where "p = JObj (extend env []
     [people_properties env, referrer_info (persistence s1),
      JObj (if isObject pr
            then fold (\<lambda>(k, v) acc. if \<not> is_reserved_property (JStr k) then obj_set acc k v else acc)
                    (own_props env pr) []
            else obj_set [] (to_string env pr) val)])"
  have "perform env m s = send_request env [(action_kind m, p)] (supplied_callback m) s1"
    by (simp add: Set set_people_def Let_def obj_set_def [of "[]" SET_ACTION] p_def s1_def)
  then show ?thesis
    by (rule reaches_intro) (simp_all add: s1_def)
next
  case (Set_once pr val callback)
  define p where "p = JObj (if isObject pr
            then fold (\<lambda>(k, v) acc. if \<not> is_reserved_property (JStr k) then obj_set acc k v else acc)
                    (own_props env pr) []
            else obj_set [] (to_string env pr) val)"
  have "perform env m s = send_request env [(action_kind m, p)] (supplied_callback m) s"
    by (simp add: Set_once set_once_def Let_def obj_set_def [of "[]" SET_ONCE_ACTION] p_def)
  then show ?thesis
    by (rule reaches_intro) simp_all
next
  case (Unset pr callback)
  define p where "p = JArr (fold (\<lambda>k acc. if \<not> is_reserved_property k then acc @ [k] else acc)
                           (elements (if \<not> isArray pr then JArr [pr] else pr)) [])"
  have "perform env m s = send_request env [(action_kind m, p)] (supplied_callback m) s"
    by (simp add: Unset unset_def Let_def obj_set_def [of "[]" UNSET_ACTION] p_def)
  then show ?thesis
    by (rule reaches_intro) simp_all
next
  case (Increment pr by0 callback)
  show ?thesis
  proof (cases "isObject pr")
    case True
    define r where "r = fold (increment_each env) (own_props env pr) ([], s)"
    have "perform env m s = send_request env [(action_kind m, JObj (fst r))] (supplied_callback m) (snd r)"
      by (simp add: Increment increment_def Let_def obj_set_def [of "[]" ADD_ACTION] True r_def
          split: prod.splits)
    moreover have "\<exists>pre. trace (snd r) = trace s @ pre \<and>
       filter is_request pre = [] \<and> filter is_enqueue pre = [] \<and> filter is_call pre = []"
      and "config (snd r) = config s" "distinct_id (snd r) = distinct_id s"
      "identify_called_flag (snd r) = identify_called_flag s"
      using increment_each_quiet [of env "own_props env pr" "[]" s] unfolding r_def by blast+
    ultimately show ?thesis
      by (rule reaches_intro)
  next
    case False
    define p where "p = JObj (obj_set [] (to_string env pr) (if isUndefined by0 then JNum 1 else by0))"
    have "perform env m s = send_request env [(action_kind m, p)] (supplied_callback m) s"
      by (simp add: Increment increment_def Let_def obj_set_def [of "[]" ADD_ACTION] p_def False)
    then show ?thesis
      by (rule reaches_intro) simp_all
  qed
next
  case (Append list_name val callback)
  define p where "p = JObj (if isObject list_name
            then fold (\<lambda>(k, v) acc. if \<not> is_reserved_property (JStr k) then obj_set acc k v else acc)
                    (own_props env list_name) []
            else obj_set [] (to_string env list_name) val)"
  have "perform env m s = send_request env [(action_kind m, p)] (supplied_callback m) s"
    by (simp add: Append append_people_def Let_def obj_set_def [of "[]" APPEND_ACTION] p_def)
  then show ?thesis
    by (rule reaches_intro) simp_all
next
  case (Union list_name vals callback)
  define p where "p = JObj (if isObject list_name
            then fold (\<lambda>(k, v) acc. if \<not> is_reserved_property (JStr k) then obj_set acc k (to_list v) else acc)
                    (own_props env list_name) []
            else obj_set [] (to_string env list_name) (to_list vals))"
  have "perform env m s = send_request env [(action_kind m, p)] (supplied_callback m) s"
    by (simp add: Union union_people_def Let_def obj_set_def [of "[]" UNION_ACTION] p_def)
  then show ?thesis
    by (rule reaches_intro) simp_all
qed

lemma identify_called_cong:
  "identify_called_flag s1 = identify_called_flag s \<Longrightarrow> identify_called s1 = identify_called s"
  by (simp add: identify_called_def)

lemma deferred_result_cong:
  "config s1 = config s \<Longrightarrow> deferred_result s1 = deferred_result s"
  by (simp add: deferred_result_def get_config_def)

text \<open>Every operation hands \<^verbatim>\<open>_send_request\<close> its payload under its action kind.\<close>

lemma perform_composes:
  "\<exists>s1 pre. perform env m s =
       send_request env [(action_kind m, queued_payload env m s)] (supplied_callback m) s1 \<and>
     trace s1 = trace s @ pre \<and>
     filter is_request pre = [] \<and> filter is_enqueue pre = [] \<and> filter is_call pre = [] \<and>
     config s1 = config s \<and> distinct_id s1 = distinct_id s \<and>
     identify_called_flag s1 = identify_called_flag s"
proof (cases m)
  case (Set pr val callback)
  define s1 where "s1 = (if truthy (get_config s ''save_referrer'')
                then update_referrer_info env (document_referrer env) s else s)"
  have p: "persistence s1 = (if truthy (get_config s ''save_referrer'')
                       then store_update_referrer env (document_referrer env) (persistence s)
                       else persistence s)"
    by (simp add: s1_def update_referrer_info_def emit_def)
  have "perform env m s = send_request env [(action_kind m, queued_payload env m s)] (supplied_callback m) s1"
    unfolding Set perform.simps set_people_def Let_def each_as_map
    by (simp add: obj_set_def [of "[]"] p [symmetric] s1_def [symmetric])
  moreover have "\<exists>pre. trace s1 = trace s @ pre \<and>
     filter is_request pre = [] \<and> filter is_enqueue pre = [] \<and> filter is_call pre = []"
    "config s1 = config s" "distinct_id s1 = distinct_id s"
    "identify_called_flag s1 = identify_called_flag s"
    by (simp_all add: s1_def)
  ultimately show ?thesis by blast
next
  case (Set_once pr val callback)
  have "perform env m s = send_request env [(action_kind m, queued_payload env m s)] (supplied_callback m) s"
    unfolding Set_once perform.simps set_once_def Let_def each_as_map
    by (simp add: obj_set_def [of "[]"])
  then show ?thesis
    by (intro exI [of _ s] exI [of _ "[]"]) simp
next
  case (Unset pr callback)
  have "perform env m s = send_request env [(action_kind m, queued_payload env m s)] (supplied_callback m) s"
    unfolding Unset perform.simps unset_def Let_def unset_names_are_filtered
    by (simp add: obj_set_def [of "[]"])
  then show ?thesis
    by (intro exI [of _ s] exI [of _ "[]"]) simp
next
  case (Increment pr by0 callback)
  show ?thesis
  proof (cases "isObject pr")
    case True
    define r where "r = fold (increment_each env) (own_props env pr) ([], s)"
    have "perform env m s = send_request env [(action_kind m, JObj (fst r))] (supplied_callback m) (snd r)"
      by (simp add: Increment increment_def Let_def obj_set_def [of "[]" ADD_ACTION] True r_def
          split: prod.splits)
    moreover have "JObj (fst r) = queued_payload env m s"
      by (simp add: Increment True r_def increment_each_as_map)
    moreover have "\<exists>pre. trace (snd r) = trace s @ pre \<and>
       filter is_request pre = [] \<and> filter is_enqueue pre = [] \<and> filter is_call pre = []"
      and "config (snd r) = config s" "distinct_id (snd r) = distinct_id s"
      "identify_called_flag (snd r) = identify_called_flag s"
      using increment_each_quiet [of env "own_props env pr" "[]" s] unfolding r_def by blast+
    ultimately show ?thesis by (simp only:) blast
  next
    case False
    have "perform env m s = send_request env [(action_kind m, queued_payload env m s)] (supplied_callback m) s"
      by (simp add: Increment increment_def Let_def obj_set_def [of "[]"] False)
    then show ?thesis
      by (intro exI [of _ s] exI [of _ "[]"]) simp
  qed
next
  case (Append list_name val callback)
  have "perform env m s = send_request env [(action_kind m, queued_payload env m s)] (supplied_callback m) s"
    unfolding Append perform.simps append_people_def Let_def each_as_map
    by (simp add: obj_set_def [of "[]"])
  then show ?thesis
    by (intro exI [of _ s] exI [of _ "[]"]) simp
next
  case (Union list_name vals callback)
  have "perform env m s = send_request env [(action_kind m, queued_payload env m s)] (supplied_callback m) s"
    unfolding Union perform.simps union_people_def Let_def each_as_map_union
    by (simp add: obj_set_def [of "[]"] to_list_def)
  then show ?thesis
    by (intro exI [of _ s] exI [of _ "[]"]) simp
qed

text \<open>
  C1. A mutation call (\<^verbatim>\<open>set\<close>, \<^verbatim>\<open>set_once\<close>, \<^verbatim>\<open>unset\<close>, \<^verbatim>\<open>increment\<close>, \<^verbatim>\<open>append\<close>,
  \<^verbatim>\<open>union\<close>) made while identity is unresolved, with no continuation or with a function of
  the caller's as continuation, makes no transport call; it hands one entry to the store,
  under the call's action kind: the object composed of the call's payload under that kind,
  the token and the distinct id; it applies the continuation once, before it returns, to
  the deferred result, which is neither a network failure nor a success of the transport,
  in either shape of results; and it returns the truncated form of the object it queued.
\<close>

theorem deferred_while_unresolved:
  assumes "\<not> identify_called s"
    and "supplied_callback m = JUndefined \<or> supplied_callback m = JFun n"
  shows "fst (perform env m s) = Return (truncate (encodeDates env (JObj (composed env m s))) 255) \<and>
     filter is_request (new_events s (snd (perform env m s))) = [] \<and>
     filter is_enqueue (new_events s (snd (perform env m s))) =
       [Add_to_people_queue (action_kind m) (JObj (composed env m s))] \<and>
     filter is_call (new_events s (snd (perform env m s))) =
       (if supplied_callback m = JFun n then [Call n [deferred_result s]] else []) \<and>
     deferred_result s \<noteq> failure_result verbose error \<and>
     deferred_result s \<noteq> success_result verbose'"
proof -
  obtain s1 pre where r:
    "perform env m s = send_request env [(action_kind m, queued_payload env m s)] (supplied_callback m) s1"
    "trace s1 = trace s @ pre"
    "filter is_request pre = []" "filter is_enqueue pre = []" "filter is_call pre = []"
    "config s1 = config s" "distinct_id s1 = distinct_id s"
    "identify_called_flag s1 = identify_called_flag s"
    using perform_composes [of env m s] by blast
  have u: "\<not> identify_called s1"
    using assms(1) r(8) by (simp add: identify_called_def)
  have c: "get_config s1 ''token'' = get_config s ''token''"
    using r(6) by (simp add: get_config_def)
  note k = action_kind_known [of m]
  have v: "fst (perform env m s) = Return (truncate (encodeDates env (JObj (composed env m s))) 255)"
    using send_request_unresolved_result(1) [OF u k assms(2), of env "queued_payload env m s"] r(1) c r(7)
    by (simp add: composed_def)
  have t: "trace (snd (perform env m s)) =
           trace s @ pre @ Add_to_people_queue (action_kind m) (JObj (composed env m s)) #
             (if supplied_callback m = JFun n then [Call n [deferred_result s]] else [])"
    using send_request_unresolved_result(2) [OF u k assms(2), of env "queued_payload env m s"] r(1,2) c r(7)
      deferred_result_cong [OF r(6)] by (simp add: composed_def)
  have n: "new_events s (snd (perform env m s)) =
           pre @ Add_to_people_queue (action_kind m) (JObj (composed env m s)) #
             (if supplied_callback m = JFun n then [Call n [deferred_result s]] else [])"
    using t by (rule new_events_eq)
  have "deferred_result s \<noteq> failure_result verbose error"
    "deferred_result s \<noteq> success_result verbose'"
    by (simp_all add: deferred_result_def failure_result_def success_result_def)
  with v n r(3,4,5) show ?thesis
    by simp
qed

theorem deferred_while_unresolved_witness:
  "\<not> identify_called anonymous \<and>
   supplied_callback (Increment (JObj [(''a'', JNum 1), (''b'', JStr ''oops'')]) (JFun 0) JUndefined) = JFun 0 \<and>
   composed plain_env (Increment (JObj [(''a'', JNum 1), (''b'', JStr ''oops'')]) (JFun 0) JUndefined) anonymous =
     [(''$add'', JObj [(''a'', JNum 1)]), (''$token'', JStr ''t0k3n''),
      (''$distinct_id'', JStr ''device-1'')] \<and>
   fst (perform plain_env (Increment (JObj [(''a'', JNum 1), (''b'', JStr ''oops'')]) (JFun 0) JUndefined) anonymous) =
     Return (JObj [(''$add'', JObj [(''a'', JNum 1)]), (''$token'', JStr ''t0k3n''),
                   (''$distinct_id'', JStr ''device-1'')]) \<and>
   filter is_request (new_events anonymous (snd (perform plain_env
      (Increment (JObj [(''a'', JNum 1), (''b'', JStr ''oops'')]) (JFun 0) JUndefined) anonymous))) = [] \<and>
   filter is_enqueue (new_events anonymous (snd (perform plain_env
      (Increment (JObj [(''a'', JNum 1), (''b'', JStr ''oops'')]) (JFun 0) JUndefined) anonymous))) =
     [Add_to_people_queue ''$add''
        (JObj [(''$add'', JObj [(''a'', JNum 1)]), (''$token'', JStr ''t0k3n''),
               (''$distinct_id'', JStr ''device-1'')])] \<and>
   filter is_call (new_events anonymous (snd (perform plain_env
      (Increment (JObj [(''a'', JNum 1), (''b'', JStr ''oops'')]) (JFun 0) JUndefined) anonymous))) =
     [Call 0 [JNum (- 1)]] \<and>
   get_queue (snd (perform plain_env
      (Increment (JObj [(''a'', JNum 1), (''b'', JStr ''oops'')]) (JFun 0) JUndefined) anonymous)) ''$add'' =
     JObj [(''a'', JNum 1)] \<and>
   supplied_callback (Set_once (JStr ''plan'') (JStr ''premium'') (JFun 1)) = JFun 1 \<and>
   fst (perform plain_env (Set_once (JStr ''plan'') (JStr ''premium'') (JFun 1)) anonymous) =
     Return (JObj [(''$set_once'', JObj [(''plan'', JStr ''premium'')]), (''$token'', JStr ''t0k3n''),
                   (''$distinct_id'', JStr ''device-1'')]) \<and>
   filter is_enqueue (new_events anonymous (snd (perform plain_env
      (Set_once (JStr ''plan'') (JStr ''premium'') (JFun 1)) anonymous))) =
     [Add_to_people_queue ''$set_once''
        (JObj [(''$set_once'', JObj [(''plan'', JStr ''premium'')]), (''$token'', JStr ''t0k3n''),
               (''$distinct_id'', JStr ''device-1'')])] \<and>
   filter is_call (new_events anonymous (snd (perform plain_env
      (Set_once (JStr ''plan'') (JStr ''premium'') (JFun 1)) anonymous))) =
     [Call 1 [JNum (- 1)]]"
proof -
  let ?m = "Increment (JObj [(''a'', JNum 1), (''b'', JStr ''oops'')]) (JFun 0) JUndefined"
  let ?m' = "Set_once (JStr ''plan'') (JStr ''premium'') (JFun 1)"
  have a: "\<not> identify_called anonymous"
    by (simp add: identify_called_def anonymous_def)
  have b: "supplied_callback ?m = JUndefined \<or> supplied_callback ?m = JFun 0"
    "supplied_callback ?m' = JUndefined \<or> supplied_callback ?m' = JFun 1"
    by simp_all
  have d: "deferred_result anonymous = JNum (- 1)"
    by (simp add: deferred_result_def anonymous_def get_config_def)
  have p: "parseFloat plain_env (JNum 1) = Some 1" "parseFloat plain_env (JStr ''oops'') = None"
    by (simp_all add: plain_env_def leading_number_def)
  have c: "composed plain_env ?m anonymous =
     [(''$add'', JObj [(''a'', JNum 1)]), (''$token'', JStr ''t0k3n''),
      (''$distinct_id'', JStr ''device-1'')]"
    "composed plain_env ?m' anonymous =
     [(''$set_once'', JObj [(''plan'', JStr ''premium'')]), (''$token'', JStr ''t0k3n''),
      (''$distinct_id'', JStr ''device-1'')]"
    by (simp_all add: composed_def kept_def as_map_def is_reserved_property_def p obj_set_def
        action_defs get_config_def anonymous_def)
  have e: "encodeDates plain_env = (\<lambda>v. v)"
    by (simp add: plain_env_def)
  have q: "get_queue (snd (perform plain_env ?m anonymous)) ''$add'' = JObj [(''a'', JNum 1)]"
    by (simp add: increment_def increment_each_def p is_reserved_property_def send_request_def
        enqueue_def has_key_def obj_set_def Let_def identify_called_def isUndefined_def
        action_defs get_config_def get_queue_def)
       (simp add: anonymous_def plain_env_def emit_def add_to_people_queue_def plain_store_add_def
          obj_get_def obj_set_def action_defs)
  from a b c q
    deferred_while_unresolved [OF a b(1), of plain_env True JNull True]
    deferred_while_unresolved [OF a b(2), of plain_env True JNull True]
  show ?thesis
    by (simp add: d e action_defs)
qed

text \<open>
  C9. For a mutation call made while identity is unresolved, whatever its continuation,
  the one entry handed to the store is the composed request: the payload under the action
  kind, then \<^verbatim>\<open>$token\<close> bound to the configured token and \<^verbatim>\<open>$distinct_id\<close> bound to the
  distinct id of the moment of the call.
\<close>

theorem queued_entry_is_composed_request:
  assumes "\<not> identify_called s"
  shows "\<exists>payload.
     filter is_enqueue (new_events s (snd (perform env m s))) =
       [Add_to_people_queue (action_kind m)
          (JObj [(action_kind m, payload), (''$token'', get_config s ''token''),
                 (''$distinct_id'', distinct_id s)])]"
proof -
  obtain p s1 pre where r:
    "perform env m s = send_request env [(action_kind m, p)] (supplied_callback m) s1"
    "trace s1 = trace s @ pre"
    "filter is_request pre = []" "filter is_enqueue pre = []" "filter is_call pre = []"
    "config s1 = config s" "distinct_id s1 = distinct_id s"
    "identify_called_flag s1 = identify_called_flag s"
    using perform_reaches_send_request [of env m s] by blast
  let ?data = "[(action_kind m, p), (''$token'', get_config s ''token''),
               (''$distinct_id'', distinct_id s)]"
  have u: "\<not> identify_called s1"
    using assms(1) r(8) by (simp add: identify_called_def)
  have c: "get_config s1 ''token'' = get_config s ''token''"
    using r(6) by (simp add: get_config_def)
  obtain evs where e:
    "trace (snd (perform env m s)) = trace s @ pre @ Add_to_people_queue (action_kind m) (JObj ?data) # evs"
    "filter is_enqueue evs = []"
    using send_request_unresolved_trace [OF u action_kind_known [of m], of env p "supplied_callback m"]
      r(1,2) c r(7) by auto
  have "new_events s (snd (perform env m s)) =
        pre @ Add_to_people_queue (action_kind m) (JObj ?data) # evs"
    using e(1) by (rule new_events_eq)
  with e(2) r(4) show ?thesis
    by (intro exI [of _ p]) simp
qed

theorem queued_entry_is_composed_request_witness:
  "\<not> identify_called anonymous \<and>
   filter is_enqueue (new_events anonymous
      (snd (perform plain_env (Set (JStr ''plan'') (JStr ''premium'') JUndefined) anonymous))) =
     [Add_to_people_queue ''$set''
        (JObj [(''$set'', JObj [(''$os'', JStr ''Linux''), (''plan'', JStr ''premium'')]),
               (''$token'', JStr ''t0k3n''), (''$distinct_id'', JStr ''device-1'')])]"
proof -
  have a: "\<not> identify_called anonymous"
    by (simp add: identify_called_def anonymous_def)
  obtain payload where
    "filter is_enqueue (new_events anonymous
      (snd (perform plain_env (Set (JStr ''plan'') (JStr ''premium'') JUndefined) anonymous))) =
     [Add_to_people_queue (action_kind (Set (JStr ''plan'') (JStr ''premium'') JUndefined))
        (JObj [(action_kind (Set (JStr ''plan'') (JStr ''premium'') JUndefined), payload),
               (''$token'', get_config anonymous ''token''),
               (''$distinct_id'', distinct_id anonymous)])]"
    using queued_entry_is_composed_request [OF a, of plain_env "Set (JStr ''plan'') (JStr ''premium'') JUndefined"]
    by blast
  moreover have "new_events anonymous
      (snd (perform plain_env (Set (JStr ''plan'') (JStr ''premium'') JUndefined) anonymous)) =
     [Add_to_people_queue ''$set''
        (JObj [(''$set'', JObj [(''$os'', JStr ''Linux''), (''plan'', JStr ''premium'')]),
               (''$token'', JStr ''t0k3n''), (''$distinct_id'', JStr ''device-1'')])]"
    by (simp add: new_events_def set_people_def send_request_def enqueue_def has_key_def
        add_to_people_queue_def emit_def extend_def obj_set_def Let_def identify_called_def
        anonymous_def plain_env_def get_config_def isUndefined_def action_defs)
  ultimately show ?thesis
    using a by simp
qed

section \<open>Flushing a queue that holds one merged payload\<close>

lemma pop_from_people_queue_simps [simp]:
  "trace (pop_from_people_queue env a d s) = trace s @ [Pop_from_people_queue a d]"
  "config (pop_from_people_queue env a d s) = config s"
  "distinct_id (pop_from_people_queue env a d s) = distinct_id s"
  "identify_called_flag (pop_from_people_queue env a d s) = identify_called_flag s"
  "vars (pop_from_people_queue env a d s) = vars s"
  by (simp_all add: pop_from_people_queue_def)

lemma obj_set_fresh: "k \<notin> fst ` set obj \<Longrightarrow> obj_set obj k v = obj @ [(k, v)]"
  unfolding obj_set_def by (induction obj) auto

lemma fold_obj_set_distinct:
  "distinct (map fst kvs) \<Longrightarrow> fst ` set kvs \<inter> fst ` set acc = {} \<Longrightarrow>
   fold (\<lambda>(k, v) acc'. obj_set acc' k v) kvs acc = acc @ kvs"
proof (induction kvs arbitrary: acc)
  case Nil
  show ?case by simp
next
  case (Cons kv kvs)
  obtain k v where kv: "kv = (k, v)" by (cases kv)
  have f: "obj_set acc k v = acc @ [(k, v)]"
    using Cons.prems(2) by (intro obj_set_fresh) (auto simp add: kv)
  have "fold (\<lambda>(k, v) acc'. obj_set acc' k v) kvs (acc @ [(k, v)]) = (acc @ [(k, v)]) @ kvs"
    using Cons.prems by (intro Cons.IH) (auto simp add: kv)
  then show ?case by (simp add: kv f)
qed

text \<open>The copy \<^verbatim>\<open>_.extend({}, queue)\<close> of a map is that map.\<close>

lemma extend_copy: "distinct (map fst q) \<Longrightarrow> extend env [] [JObj q] = q"
  using fold_obj_set_distinct [of q "[]"] by (simp add: extend_def)

lemma send_request_resolved:
  assumes "identify_called s"
  shows "fst (send_request env data0 callback s) =
           Return (truncate (encodeDates env (JObj (obj_set (obj_set data0 ''$token'' (get_config s ''token''))
                   ''$distinct_id'' (distinct_id s)))) 255)"
    and "trace (snd (send_request env data0 callback s)) = trace s @
           [Console_log (JStr ''MIXPANEL PEOPLE REQUEST:''),
            Console_log (truncate (encodeDates env (JObj (obj_set (obj_set data0 ''$token'' (get_config s ''token''))
                   ''$distinct_id'' (distinct_id s)))) 255),
            Send_request (JStr (to_string env (get_config s ''api_host'') @ ''/engage/''))
              (wire_request env (encodeDates env (JObj (obj_set (obj_set data0 ''$token'' (get_config s ''token''))
                   ''$distinct_id'' (distinct_id s)))))
              (PreparedCb callback
                 (truncate (encodeDates env (JObj (obj_set (obj_set data0 ''$token'' (get_config s ''token''))
                   ''$distinct_id'' (distinct_id s)))) 255))]"
  using assms by (simp_all add: send_request_def Let_def wire_request_def get_config_def)

text \<open>
  With identity resolved, an operation makes exactly one transport call, whose prepared
  continuation is made of the operation's continuation, and it queues nothing.
\<close>

lemma perform_resolved:
  assumes "identify_called s"
  shows "\<exists>url wire data evs. trace (snd (perform env m s)) = trace s @ evs \<and>
           filter is_request evs = [Send_request url wire (PreparedCb (supplied_callback m) data)] \<and>
           filter is_enqueue evs = [] \<and>
           fst (perform env m s) = Return data"
proof -
  obtain p s1 pre where r:
    "perform env m s = send_request env [(action_kind m, p)] (supplied_callback m) s1"
    "trace s1 = trace s @ pre"
    "filter is_request pre = []" "filter is_enqueue pre = []" "filter is_call pre = []"
    "config s1 = config s" "distinct_id s1 = distinct_id s"
    "identify_called_flag s1 = identify_called_flag s"
    using perform_reaches_send_request [of env m s] by blast
  have i: "identify_called s1"
    using assms r(8) by (simp add: identify_called_def)
  show ?thesis
    using send_request_resolved [OF i, of env "[(action_kind m, p)]" "supplied_callback m"] r(1-4)
    by simp
qed

lemma and_then_skip: "snd (and_then r (\<lambda>s2. (v, s2))) = snd r"
  by (auto simp add: and_then_def split: prod.splits completion.splits)

lemma wrapper_runs:
  assumes "callback = JUndefined \<or> callback = JFun n"
  shows "trace (snd (invoke env (PreparedCb (FlushOneQueueCb action queued_data callback) data) [response] t)) =
           trace t @ (if response = JNum 0 then [Add_to_people_queue action queued_data] else []) @
             (if callback = JFun n then [Call n [response, data]] else [])"
  using assms by (auto simp add: Let_def isUndefined_def arg_def)

text \<open>
  C3. Let \<^verbatim>\<open>_flush_one_queue\<close> flush one of the five kinds that are not APPEND, as
  \<^verbatim>\<open>_flush\<close> calls it (lines 428-432), with identity resolved, on a queue that holds the
  non-empty map \<open>q\<close>, the per-kind continuation being absent or a function of the
  caller's. It removes \<open>q\<close> from the store and makes one request, whose prepared continuation
  is made of the wrapping continuation that holds \<open>q\<close> itself, also for UNSET, where the
  keys of \<open>q\<close> are what is dispatched. Whenever that continuation is run on a result, it
  passes the result (with the request's data) on to the per-kind continuation if there is
  one, and it hands the bare map \<open>q\<close> to the store under the same kind exactly when the
  result is the number 0 (line 410). So a network failure of a transport that is not asked
  for verbose results is handed back, and a network failure in the verbose shape is not.
\<close>

theorem flush_requeues_on_zero_only:
  assumes "identify_called s"
    and "get_queue s action = JObj q" and "q \<noteq> []" and "distinct (map fst q)"
    and "callback = JUndefined \<or> callback = JFun n"
    and "(action, action_method, queue_to_params_fn) \<in>
           {(SET_ACTION, (\<lambda>env p c. set_people env p c JUndefined), None),
            (SET_ONCE_ACTION, (\<lambda>env p c. set_once env p c JUndefined), None),
            (UNSET_ACTION, unset, Some (keys env)),
            (ADD_ACTION, (\<lambda>env p c. increment env p c JUndefined), None),
            (UNION_ACTION, (\<lambda>env p c. union_people env p c JUndefined), None)}"
  shows "\<exists>url wire data.
     take 1 (new_events s
        (snd (flush_one_queue env action action_method callback queue_to_params_fn s))) =
       [Pop_from_people_queue action (JObj q)] \<and>
     filter is_request (new_events s
        (snd (flush_one_queue env action action_method callback queue_to_params_fn s))) =
       [Send_request url wire (PreparedCb (FlushOneQueueCb action (JObj q) callback) data)] \<and>
     filter is_enqueue (new_events t
        (snd (invoke env (PreparedCb (FlushOneQueueCb action (JObj q) callback) data) [response] t))) =
       (if response = JNum 0 then [Add_to_people_queue action (JObj q)] else []) \<and>
     filter is_enqueue (new_events t
        (snd (invoke env (PreparedCb (FlushOneQueueCb action (JObj q) callback) data)
                [failure_result verbose error] t))) =
       (if verbose then [] else [Add_to_people_queue action (JObj q)]) \<and>
     filter is_call (new_events t
        (snd (invoke env (PreparedCb (FlushOneQueueCb action (JObj q) callback) data) [response] t))) =
       (if callback = JFun n then [Call n [response, data]] else [])"
proof -
  let ?w = "FlushOneQueueCb action (JObj q) callback"
  let ?s1 = "pop_from_people_queue env action (JObj q) s"
  let ?params = "case queue_to_params_fn of Some f \<Rightarrow> f (JObj q) | None \<Rightarrow> JObj q"
  have f: "flush_one_queue env action action_method callback queue_to_params_fn s =
           and_then (action_method env ?params ?w ?s1) (\<lambda>s2. (Return JUndefined, s2))"
    using assms(2,3)
    by (simp add: flush_one_queue_def extend_copy [OF assms(4)] Let_def isUndefined_def
        isEmptyObject_def)
  have i: "identify_called ?s1"
    using assms(1) by (simp add: identify_called_def)
  obtain m where m: "action_method env ?params ?w ?s1 = perform env m ?s1"
    "supplied_callback m = ?w"
  proof -
    consider "action = SET_ACTION" "action_method = (\<lambda>env p c. set_people env p c JUndefined)" "queue_to_params_fn = None"
      | "action = SET_ONCE_ACTION" "action_method = (\<lambda>env p c. set_once env p c JUndefined)" "queue_to_params_fn = None"
      | "action = UNSET_ACTION" "action_method = unset" "queue_to_params_fn = Some (keys env)"
      | "action = ADD_ACTION" "action_method = (\<lambda>env p c. increment env p c JUndefined)" "queue_to_params_fn = None"
      | "action = UNION_ACTION" "action_method = (\<lambda>env p c. union_people env p c JUndefined)" "queue_to_params_fn = None"
      using assms(6) by auto
    then show ?thesis
    proof cases
      case 1
      then show ?thesis by (intro that [of "Set (JObj q) ?w JUndefined"]) simp_all
    next
      case 2
      then show ?thesis by (intro that [of "Set_once (JObj q) ?w JUndefined"]) simp_all
    next
      case 3
      then show ?thesis by (intro that [of "Unset (keys env (JObj q)) ?w"]) simp_all
    next
      case 4
      then show ?thesis by (intro that [of "Increment (JObj q) ?w JUndefined"]) simp_all
    next
      case 5
      then show ?thesis by (intro that [of "Union (JObj q) ?w JUndefined"]) simp_all
    qed
  qed
  obtain url wire data evs where p:
    "trace (snd (perform env m ?s1)) = trace ?s1 @ evs"
    "filter is_request evs = [Send_request url wire (PreparedCb ?w data)]"
    "fst (perform env m ?s1) = Return data"
    using perform_resolved [OF i, of env m] m(2) by auto
  have "snd (flush_one_queue env action action_method callback queue_to_params_fn s) =
        snd (perform env m ?s1)"
    by (simp add: f m(1) and_then_skip)
  then have ne: "new_events s (snd (flush_one_queue env action action_method callback queue_to_params_fn s)) =
        Pop_from_people_queue action (JObj q) # evs"
    using p(1) by (intro new_events_eq) simp
  have 0: "take 1 (new_events s
        (snd (flush_one_queue env action action_method callback queue_to_params_fn s))) =
       [Pop_from_people_queue action (JObj q)]"
    by (simp add: ne)
  have 1: "filter is_request (new_events s
        (snd (flush_one_queue env action action_method callback queue_to_params_fn s))) =
       [Send_request url wire (PreparedCb ?w data)]"
    using p(2) by (simp add: ne)
  have run: "new_events t (snd (invoke env (PreparedCb ?w data) [r] t)) =
        (if r = JNum 0 then [Add_to_people_queue action (JObj q)] else []) @
             (if callback = JFun n then [Call n [r, data]] else [])" for r
    by (intro new_events_eq wrapper_runs assms(5))
  have 2: "filter is_enqueue (new_events t (snd (invoke env (PreparedCb ?w data) [response] t))) =
       (if response = JNum 0 then [Add_to_people_queue action (JObj q)] else [])"
    and 4: "filter is_call (new_events t (snd (invoke env (PreparedCb ?w data) [response] t))) =
       (if callback = JFun n then [Call n [response, data]] else [])"
    unfolding run by simp_all
  have 3: "filter is_enqueue (new_events t
        (snd (invoke env (PreparedCb ?w data) [failure_result verbose error] t))) =
       (if verbose then [] else [Add_to_people_queue action (JObj q)])"
    unfolding run by (simp add: failure_result_def)
  from 0 1 2 3 4 show ?thesis by blast
qed

theorem flush_requeues_on_zero_only_witness:
  "identify_called verbose_unset_pending \<and>
   truthy (get_config verbose_unset_pending ''verbose'') \<and>
   get_queue verbose_unset_pending UNSET_ACTION =
     JObj [(''gender'', JBool True), (''Company'', JBool True)] \<and>
   (\<exists>url wire data.
     filter is_request (new_events verbose_unset_pending
        (snd (flush_one_queue plain_env UNSET_ACTION unset (JFun 2) (Some (keys plain_env))
                verbose_unset_pending))) =
       [Send_request url wire
          (PreparedCb (FlushOneQueueCb UNSET_ACTION
             (JObj [(''gender'', JBool True), (''Company'', JBool True)]) (JFun 2)) data)] \<and>
     filter is_enqueue (new_events verbose_unset_pending
        (snd (invoke plain_env
           (PreparedCb (FlushOneQueueCb UNSET_ACTION
             (JObj [(''gender'', JBool True), (''Company'', JBool True)]) (JFun 2)) data)
           [JObj [(''status'', JNum 0), (''error'', JStr ''Bad HTTP status: 500'')]]
           verbose_unset_pending))) = []) \<and>
   failure_result True (JStr ''Bad HTTP status: 500'') =
     JObj [(''status'', JNum 0), (''error'', JStr ''Bad HTTP status: 500'')] \<and>
   get_queue
     (snd (flush_one_queue plain_env UNSET_ACTION unset JUndefined (Some (keys plain_env)) unset_pending))
     UNSET_ACTION = JObj [] \<and>
   get_queue
     (snd (invoke plain_env
        (PreparedCb (FlushOneQueueCb UNSET_ACTION
           (JObj [(''gender'', JBool True), (''Company'', JBool True)]) JUndefined) JNull)
        [JNum 0]
        (snd (flush_one_queue plain_env UNSET_ACTION unset JUndefined (Some (keys plain_env)) unset_pending))))
     UNSET_ACTION = JObj []"
proof -
  let ?q = "[(''gender'', JBool True), (''Company'', JBool True)]"
  have a: "identify_called verbose_unset_pending"
    by (simp add: identify_called_def verbose_unset_pending_def unset_pending_def identified_def
        anonymous_def)
  have v: "truthy (get_config verbose_unset_pending ''verbose'')"
    by (simp add: get_config_def verbose_unset_pending_def)
  have b: "get_queue verbose_unset_pending UNSET_ACTION = JObj ?q"
    by (simp add: get_queue_def verbose_unset_pending_def unset_pending_def)
  have c: "?q \<noteq> []" "distinct (map fst ?q)" "JFun 2 = JUndefined \<or> JFun 2 = JFun 2"
    by simp_all
  have d: "(UNSET_ACTION, unset, Some (keys plain_env)) \<in>
           {(SET_ACTION, (\<lambda>env p c. set_people env p c JUndefined), None),
            (SET_ONCE_ACTION, (\<lambda>env p c. set_once env p c JUndefined), None),
            (UNSET_ACTION, unset, Some (keys plain_env)),
            (ADD_ACTION, (\<lambda>env p c. increment env p c JUndefined), None),
            (UNION_ACTION, (\<lambda>env p c. union_people env p c JUndefined), None)}"
    by simp
  have f: "failure_result True (JStr ''Bad HTTP status: 500'') =
     JObj [(''status'', JNum 0), (''error'', JStr ''Bad HTTP status: 500'')]"
    by (simp add: failure_result_def)
  have s1: "get_queue
     (snd (flush_one_queue plain_env UNSET_ACTION unset JUndefined (Some (keys plain_env)) unset_pending))
     UNSET_ACTION = JObj []"
    by code_simp
  have s2: "get_queue
     (snd (invoke plain_env
        (PreparedCb (FlushOneQueueCb UNSET_ACTION (JObj ?q) JUndefined) JNull)
        [JNum 0]
        (snd (flush_one_queue plain_env UNSET_ACTION unset JUndefined (Some (keys plain_env)) unset_pending))))
     UNSET_ACTION = JObj []"
    by code_simp
  obtain url wire data where w:
    "filter is_request (new_events verbose_unset_pending
        (snd (flush_one_queue plain_env UNSET_ACTION unset (JFun 2) (Some (keys plain_env))
                verbose_unset_pending))) =
       [Send_request url wire (PreparedCb (FlushOneQueueCb UNSET_ACTION (JObj ?q) (JFun 2)) data)]"
    "filter is_enqueue (new_events verbose_unset_pending
        (snd (invoke plain_env (PreparedCb (FlushOneQueueCb UNSET_ACTION (JObj ?q) (JFun 2)) data)
           [failure_result True (JStr ''Bad HTTP status: 500'')] verbose_unset_pending))) =
       (if True then [] else [Add_to_people_queue UNSET_ACTION (JObj ?q)])"
    using flush_requeues_on_zero_only [OF a b c d, of verbose_unset_pending JNull True
        "JStr ''Bad HTTP status: 500''"]
    by blast
  from w have "\<exists>url wire data.
     filter is_request (new_events verbose_unset_pending
        (snd (flush_one_queue plain_env UNSET_ACTION unset (JFun 2) (Some (keys plain_env))
                verbose_unset_pending))) =
       [Send_request url wire (PreparedCb (FlushOneQueueCb UNSET_ACTION (JObj ?q) (JFun 2)) data)] \<and>
     filter is_enqueue (new_events verbose_unset_pending
        (snd (invoke plain_env (PreparedCb (FlushOneQueueCb UNSET_ACTION (JObj ?q) (JFun 2)) data)
           [JObj [(''status'', JNum 0), (''error'', JStr ''Bad HTTP status: 500'')]]
           verbose_unset_pending))) = []"
    unfolding f by (intro exI [of _ url] exI [of _ wire] exI [of _ data]) simp
  with a v b f s1 s2 show ?thesis
    by (intro conjI)
qed

section \<open>What reaches the transport\<close>

text \<open>
  C2. With identity resolved, the one request of a mutation call carries the wire form of
  the composed object as \<^verbatim>\<open>_.encodeDates\<close> left it (line 344 encodes
  \<^verbatim>\<open>date_encoded_data\<close>); the truncated object of line 343 is what the call logs, returns
  and prepares the continuation with.
\<close>

theorem wire_request_encodes_untruncated_data:
  assumes "identify_called s"
  shows "\<exists>payload url.
     filter is_request (new_events s (snd (perform env m s))) =
       [Send_request url
          (wire_request env (encodeDates env
             (JObj [(action_kind m, payload), (''$token'', get_config s ''token''),
                    (''$distinct_id'', distinct_id s)])))
          (PreparedCb (supplied_callback m)
             (truncate (encodeDates env
                (JObj [(action_kind m, payload), (''$token'', get_config s ''token''),
                       (''$distinct_id'', distinct_id s)])) 255))] \<and>
     fst (perform env m s) =
       Return (truncate (encodeDates env
                (JObj [(action_kind m, payload), (''$token'', get_config s ''token''),
                       (''$distinct_id'', distinct_id s)])) 255)"
proof -
  obtain p s1 pre where r:
    "perform env m s = send_request env [(action_kind m, p)] (supplied_callback m) s1"
    "trace s1 = trace s @ pre"
    "filter is_request pre = []" "filter is_enqueue pre = []" "filter is_call pre = []"
    "config s1 = config s" "distinct_id s1 = distinct_id s"
    "identify_called_flag s1 = identify_called_flag s"
    using perform_reaches_send_request [of env m s] by blast
  have i: "identify_called s1"
    using assms r(8) by (simp add: identify_called_def)
  have c: "get_config s1 = get_config s"
    using r(6) by (simp add: get_config_def fun_eq_iff)
  note sr = send_request_resolved [OF i, of env "[(action_kind m, p)]" "supplied_callback m",
      unfolded composed_action(1) [OF action_kind_known] c r(7)]
  have "new_events s (snd (perform env m s)) = pre @
           [Console_log (JStr ''MIXPANEL PEOPLE REQUEST:''),
            Console_log (truncate (encodeDates env
              (JObj [(action_kind m, p), (''$token'', get_config s ''token''),
                     (''$distinct_id'', distinct_id s)])) 255),
            Send_request (JStr (to_string env (get_config s ''api_host'') @ ''/engage/''))
              (wire_request env (encodeDates env
                (JObj [(action_kind m, p), (''$token'', get_config s ''token''),
                       (''$distinct_id'', distinct_id s)])))
              (PreparedCb (supplied_callback m)
                 (truncate (encodeDates env
                    (JObj [(action_kind m, p), (''$token'', get_config s ''token''),
                           (''$distinct_id'', distinct_id s)])) 255))]"
    using sr(2) r(1,2) by (intro new_events_eq) simp
  with r(3) sr(1) r(1) show ?thesis
    by (intro exI [of _ p] exI [of _ "JStr (to_string env (get_config s ''api_host'') @ ''/engage/'')"])
       simp
qed

theorem wire_request_encodes_untruncated_data_witness:
  "identify_called identified \<and>
   filter is_request (new_events identified
      (snd (perform plain_env (Set_once (JStr ''bio'') (JStr (replicate 300 CHR ''x'')) JUndefined) identified))) =
     [Send_request (JStr ''https://api.example.com/engage/'')
        (wire_request plain_env
           (JObj [(''$set_once'', JObj [(''bio'', JStr (replicate 300 CHR ''x''))]),
                  (''$token'', JStr ''t0k3n''), (''$distinct_id'', JStr ''user-7'')]))
        (PreparedCb JUndefined
           (JObj [(''$set_once'', JObj [(''bio'', JStr (replicate 255 CHR ''x''))]),
                  (''$token'', JStr ''t0k3n''), (''$distinct_id'', JStr ''user-7'')]))] \<and>
   truncate (JObj [(''$set_once'', JObj [(''bio'', JStr (replicate 300 CHR ''x''))]),
                   (''$token'', JStr ''t0k3n''), (''$distinct_id'', JStr ''user-7'')]) 255 \<noteq>
     JObj [(''$set_once'', JObj [(''bio'', JStr (replicate 300 CHR ''x''))]),
           (''$token'', JStr ''t0k3n''), (''$distinct_id'', JStr ''user-7'')]"
proof -
  let ?m = "Set_once (JStr ''bio'') (JStr (replicate 300 CHR ''x'')) JUndefined"
  have a: "identify_called identified"
    by (simp add: identify_called_def identified_def anonymous_def)
  have t: "truncate (JObj [(''$set_once'', JObj [(''bio'', JStr (replicate 300 CHR ''x''))]),
                   (''$token'', JStr ''t0k3n''), (''$distinct_id'', JStr ''user-7'')]) 255 =
     JObj [(''$set_once'', JObj [(''bio'', JStr (replicate 255 CHR ''x''))]),
           (''$token'', JStr ''t0k3n''), (''$distinct_id'', JStr ''user-7'')]"
    by simp
  have n: "replicate 255 CHR ''x'' \<noteq> replicate 300 CHR ''x''"
    by (simp add: replicate_eq_replicate)
  have e: "perform plain_env ?m identified =
     send_request plain_env [(''$set_once'', JObj [(''bio'', JStr (replicate 300 CHR ''x''))])] JUndefined identified"
    by (simp add: set_once_def obj_set_def SET_ONCE_ACTION_def)
  have c: "encodeDates plain_env = (\<lambda>v. v)" "get_config identified ''token'' = JStr ''t0k3n''"
    "distinct_id identified = JStr ''user-7''"
    "to_string plain_env (get_config identified ''api_host'') = ''https://api.example.com''"
    by (simp_all add: plain_env_def get_config_def identified_def anonymous_def)
  obtain payload url where w:
    "filter is_request (new_events identified (snd (perform plain_env ?m identified))) =
       [Send_request url
          (wire_request plain_env (encodeDates plain_env
             (JObj [(action_kind ?m, payload), (''$token'', get_config identified ''token''),
                    (''$distinct_id'', distinct_id identified)])))
          (PreparedCb (supplied_callback ?m)
             (truncate (encodeDates plain_env
                (JObj [(action_kind ?m, payload), (''$token'', get_config identified ''token''),
                       (''$distinct_id'', distinct_id identified)])) 255))]"
    using wire_request_encodes_untruncated_data [OF a, of plain_env ?m] by blast
  have "new_events identified (snd (perform plain_env ?m identified)) =
     [Console_log (JStr ''MIXPANEL PEOPLE REQUEST:''),
      Console_log (JObj [(''$set_once'', JObj [(''bio'', JStr (replicate 255 CHR ''x''))]),
                  (''$token'', JStr ''t0k3n''), (''$distinct_id'', JStr ''user-7'')]),
      Send_request (JStr ''https://api.example.com/engage/'')
        (wire_request plain_env
           (JObj [(''$set_once'', JObj [(''bio'', JStr (replicate 300 CHR ''x''))]),
                  (''$token'', JStr ''t0k3n''), (''$distinct_id'', JStr ''user-7'')]))
        (PreparedCb JUndefined
           (JObj [(''$set_once'', JObj [(''bio'', JStr (replicate 255 CHR ''x''))]),
                  (''$token'', JStr ''t0k3n''), (''$distinct_id'', JStr ''user-7'')]))]"
    unfolding e using send_request_resolved(2) [OF a, of plain_env
        "[(''$set_once'', JObj [(''bio'', JStr (replicate 300 CHR ''x''))])]" JUndefined]
    by (intro new_events_eq) (simp add: c obj_set_def)
  with a t n have v: ?thesis by simp
  from w show ?thesis by (rule_tac v)
qed

section \<open>A single name and value\<close>

lemma has_key_obj_set: "has_key k (obj_set obj k v)"
  by (simp add: has_key_def obj_set_def dom_update)

lemma obj_get_obj_set: "obj_get (obj_set obj k v) k = v"
  by (simp add: obj_get_def obj_set_def update_conv')

lemma extend_last_pair:
  "extend env obj (sources @ [JObj [(k, v)]]) = obj_set (extend env obj sources) k v"
  by (simp add: extend_def)

text \<open>
  C6. \<^verbatim>\<open>set(name, value)\<close> with a name that is not a map puts the value under that name
  into the \<^verbatim>\<open>$set\<close> payload without asking \<^verbatim>\<open>_is_reserved_property\<close> (line 45): the payload
  that is queued before identity is resolved has the name as a key, bound to the value,
  whatever the name is.
\<close>

theorem scalar_name_is_not_filtered:
  assumes "\<not> identify_called s" and "\<not> isObject name"
  shows "\<exists>payload.
     filter is_enqueue (new_events s (snd (set_people env name v JUndefined s))) =
       [Add_to_people_queue SET_ACTION
          (JObj [(SET_ACTION, JObj payload), (''$token'', get_config s ''token''),
                 (''$distinct_id'', distinct_id s)])] \<and>
     has_key (to_string env name) payload \<and>
     obj_get payload (to_string env name) = v"
proof -
  define s1 where "s1 = (if truthy (get_config s ''save_referrer'')
                then update_referrer_info env (document_referrer env) s else s)"
  define payload where "payload = extend env []
     ([people_properties env, referrer_info (persistence s1)] @ [JObj [(to_string env name, v)]])"
  have e: "set_people env name v JUndefined s =
           send_request env [(SET_ACTION, JObj payload)] JUndefined s1"
    using assms(2)
    by (simp add: set_people_def Let_def obj_set_def [of "[]"] payload_def s1_def)
  have u: "\<not> identify_called s1"
    using assms(1) by (simp add: identify_called_def s1_def)
  have c: "get_config s1 ''token'' = get_config s ''token''" "distinct_id s1 = distinct_id s"
    by (simp_all add: get_config_def s1_def)
  have k: "SET_ACTION \<in> {SET_ACTION, SET_ONCE_ACTION, UNSET_ACTION, ADD_ACTION, APPEND_ACTION, UNION_ACTION}"
    by simp
  have t: "trace (snd (set_people env name v JUndefined s)) =
           trace s1 @ [Add_to_people_queue SET_ACTION
             (JObj [(SET_ACTION, JObj payload), (''$token'', get_config s ''token''),
                    (''$distinct_id'', distinct_id s)])]"
    using send_request_unresolved_result(2) [OF u k, of JUndefined 0 env "JObj payload"]
    by (simp add: e c)
  have "\<exists>pre. trace s1 = trace s @ pre \<and> filter is_enqueue pre = []"
    by (simp add: s1_def)
  then obtain pre where p: "trace s1 = trace s @ pre" "filter is_enqueue pre = []"
    by blast
  have "new_events s (snd (set_people env name v JUndefined s)) =
        pre @ [Add_to_people_queue SET_ACTION
             (JObj [(SET_ACTION, JObj payload), (''$token'', get_config s ''token''),
                    (''$distinct_id'', distinct_id s)])]"
    using t p(1) by (intro new_events_eq) simp
  moreover have "has_key (to_string env name) payload"
    "obj_get payload (to_string env name) = v"
    unfolding payload_def extend_last_pair by (rule has_key_obj_set, rule obj_get_obj_set)
  ultimately show ?thesis
    using p(2) by (intro exI [of _ payload]) simp
qed

theorem scalar_name_is_not_filtered_witness:
  "\<not> identify_called anonymous \<and> \<not> isObject (JStr ''$token'') \<and>
   is_reserved_property (JStr ''$token'') \<and>
   new_events anonymous (snd (set_people plain_env (JStr ''$token'') (JStr ''x'') JUndefined anonymous)) =
     [Add_to_people_queue ''$set''
        (JObj [(''$set'', JObj [(''$os'', JStr ''Linux''), (''$token'', JStr ''x'')]),
               (''$token'', JStr ''t0k3n''), (''$distinct_id'', JStr ''device-1'')])] \<and>
   has_key ''$token'' [(''$os'', JStr ''Linux''), (''$token'', JStr ''x'')]"
proof -
  have a: "\<not> identify_called anonymous"
    by (simp add: identify_called_def anonymous_def)
  have b: "\<not> isObject (JStr ''$token'')"
    by simp
  have e: "new_events anonymous (snd (set_people plain_env (JStr ''$token'') (JStr ''x'') JUndefined anonymous)) =
     [Add_to_people_queue ''$set''
        (JObj [(''$set'', JObj [(''$os'', JStr ''Linux''), (''$token'', JStr ''x'')]),
               (''$token'', JStr ''t0k3n''), (''$distinct_id'', JStr ''device-1'')])]"
    by (simp add: new_events_def set_people_def send_request_def enqueue_def has_key_def
        add_to_people_queue_def emit_def extend_def obj_set_def Let_def identify_called_def
        anonymous_def plain_env_def get_config_def isUndefined_def action_defs)
  from a b e have v: ?thesis
    by (simp add: is_reserved_property_def has_key_def)
  from scalar_name_is_not_filtered [OF a b, of plain_env "JStr ''x''"] show ?thesis
    by (rule_tac v)
qed

section \<open>A single counter\<close>

text \<open>
  C7. \<^verbatim>\<open>increment(name, by)\<close> with a name that is not a map and an amount that is given
  puts the amount into the \<^verbatim>\<open>$add\<close> payload as it is (line 180); \<^verbatim>\<open>parseFloat\<close> is not asked,
  and nothing is written to the console.
\<close>

theorem scalar_increment_is_not_validated:
  assumes "\<not> identify_called s" and "\<not> isObject name" and "\<not> isUndefined v"
  shows "new_events s (snd (increment env name v JUndefined s)) =
       [Add_to_people_queue ADD_ACTION
          (JObj [(ADD_ACTION, JObj [(to_string env name, v)]), (''$token'', get_config s ''token''),
                 (''$distinct_id'', distinct_id s)])]"
proof -
  have e: "increment env name v JUndefined s =
           send_request env [(ADD_ACTION, JObj [(to_string env name, v)])] JUndefined s"
    using assms(2,3) by (simp add: increment_def Let_def obj_set_def)
  have k: "ADD_ACTION \<in> {SET_ACTION, SET_ONCE_ACTION, UNSET_ACTION, ADD_ACTION, APPEND_ACTION, UNION_ACTION}"
    by simp
  show ?thesis
    using send_request_unresolved_result(2) [OF assms(1) k, of JUndefined 0 env "JObj [(to_string env name, v)]"]
    by (intro new_events_eq) (simp add: e)
qed

theorem scalar_increment_is_not_validated_witness:
  "\<not> identify_called anonymous \<and> \<not> isObject (JStr ''b'') \<and> \<not> isUndefined (JStr ''oops'') \<and>
   parseFloat plain_env (JStr ''oops'') = None \<and>
   new_events anonymous (snd (increment plain_env (JStr ''b'') (JStr ''oops'') JUndefined anonymous)) =
     [Add_to_people_queue ''$add''
        (JObj [(''$add'', JObj [(''b'', JStr ''oops'')]), (''$token'', JStr ''t0k3n''),
               (''$distinct_id'', JStr ''device-1'')])]"
proof -
  have a: "\<not> identify_called anonymous"
    by (simp add: identify_called_def anonymous_def)
  have b: "\<not> isObject (JStr ''b'')" "\<not> isUndefined (JStr ''oops'')"
    by (simp_all add: isUndefined_def)
  have p: "parseFloat plain_env (JStr ''oops'') = None"
    by (simp add: plain_env_def leading_number_def)
  from a b p scalar_increment_is_not_validated [OF a b, of plain_env] show ?thesis
    by (simp add: ADD_ACTION_def get_config_def anonymous_def)
qed

section \<open>Flushing the APPEND queue\<close>

lemma send_request_resolved_state:
  assumes "identify_called s"
  shows "vars (snd (send_request env data0 callback s)) = vars s"
    and "config (snd (send_request env data0 callback s)) = config s"
    and "distinct_id (snd (send_request env data0 callback s)) = distinct_id s"
    and "identify_called_flag (snd (send_request env data0 callback s)) = identify_called_flag s"
    and "persistence (snd (send_request env data0 callback s)) = persistence s"
  using assms by (simp_all add: send_request_def Let_def)

lemma append_request_cong:
  "config s1 = config s \<Longrightarrow> distinct_id s1 = distinct_id s \<Longrightarrow>
   append_request env s1 = append_request env s"
  by (simp add: append_request_def get_config_def fun_eq_iff)

lemma append_people_resolved:
  assumes "identify_called s" and "isObject item"
  shows "\<exists>v. fst (append_people env item callback JUndefined s) = Return v"
    and "trace (snd (append_people env item callback JUndefined s)) = trace s @
           [Console_log (JStr ''MIXPANEL PEOPLE REQUEST:''),
            Console_log (truncate (encodeDates env (JObj
              [(APPEND_ACTION,
                JObj (fold (\<lambda>(k, v) acc. if \<not> is_reserved_property (JStr k) then obj_set acc k v else acc)
                      (own_props env item) [])),
               (''$token'', get_config s ''token''),
               (''$distinct_id'', distinct_id s)])) 255),
            append_request env s callback item]"
    and "vars (snd (append_people env item callback JUndefined s)) = vars s"
    and "config (snd (append_people env item callback JUndefined s)) = config s"
    and "distinct_id (snd (append_people env item callback JUndefined s)) = distinct_id s"
    and "identify_called_flag (snd (append_people env item callback JUndefined s)) = identify_called_flag s"
    and "persistence (snd (append_people env item callback JUndefined s)) = persistence s"
proof -
  let ?p = "JObj (fold (\<lambda>(k, v) acc. if \<not> is_reserved_property (JStr k) then obj_set acc k v else acc)
                      (own_props env item) [])"
  have e: "append_people env item callback JUndefined s =
           send_request env [(APPEND_ACTION, ?p)] callback s"
    using assms(2) by (simp add: append_people_def Let_def obj_set_def [of "[]"])
  have k: "APPEND_ACTION \<in> {SET_ACTION, SET_ONCE_ACTION, UNSET_ACTION, ADD_ACTION, APPEND_ACTION, UNION_ACTION}"
    by simp
  note sr = send_request_resolved [OF assms(1), of env "[(APPEND_ACTION, ?p)]" callback,
      unfolded composed_action(1) [OF k]]
  show "\<exists>v. fst (append_people env item callback JUndefined s) = Return v"
    using sr(1) by (simp add: e)
  show "trace (snd (append_people env item callback JUndefined s)) = trace s @
           [Console_log (JStr ''MIXPANEL PEOPLE REQUEST:''),
            Console_log (truncate (encodeDates env (JObj
              [(APPEND_ACTION, ?p),
               (''$token'', get_config s ''token''),
               (''$distinct_id'', distinct_id s)])) 255),
            append_request env s callback item]"
    using sr(2) by (simp add: e append_request_def Let_def)
  show "vars (snd (append_people env item callback JUndefined s)) = vars s"
    "config (snd (append_people env item callback JUndefined s)) = config s"
    "distinct_id (snd (append_people env item callback JUndefined s)) = distinct_id s"
    "identify_called_flag (snd (append_people env item callback JUndefined s)) = identify_called_flag s"
    "persistence (snd (append_people env item callback JUndefined s)) = persistence s"
    using send_request_resolved_state [OF assms(1), of env "[(APPEND_ACTION, ?p)]" callback]
    by (simp_all add: e)
qed

text \<open>
  The loop of lines 446-449 with identity resolved: one request for each entry, the last
  entry of the queue first, nothing saved and nothing queued on the way; when it is over the
  captured variable holds the first entry of the queue and the queue of the store is empty.
\<close>

lemma flush_append_loop_resolved:
  assumes "identify_called s" and "list_all isObject items" and "cell < length (vars s)"
  shows "fst (flush_append_loop env cell callback (length items) items s) = Return JUndefined \<and>
     (\<exists>evs. trace (snd (flush_append_loop env cell callback (length items) items s)) = trace s @ evs \<and>
            filter is_request evs = map (append_request env s callback) (rev items) \<and>
            filter is_save evs = [] \<and> filter is_enqueue evs = []) \<and>
     vars (snd (flush_append_loop env cell callback (length items) items s)) =
       (if items = [] then vars s else (vars s)[cell := hd items]) \<and>
     config (snd (flush_append_loop env cell callback (length items) items s)) = config s \<and>
     distinct_id (snd (flush_append_loop env cell callback (length items) items s)) = distinct_id s \<and>
     identify_called_flag (snd (flush_append_loop env cell callback (length items) items s)) =
       identify_called_flag s"
  using assms
proof (induction items arbitrary: s rule: rev_induct)
  case Nil
  show ?case by simp
next
  case (snoc x xs)
  let ?s1 = "s\<lparr>vars := (vars s)[cell := x],
                persistence := (persistence s)
                  \<lparr>queues := (queues (persistence s))(APPEND_ACTION := JArr xs)\<rparr>\<rparr>"
  have i1: "identify_called ?s1"
    using snoc.prems(1) by (simp add: identify_called_def)
  have ox: "isObject x" and oxs: "list_all isObject xs"
    using snoc.prems(2) by simp_all
  obtain v s2 where v: "append_people env x callback JUndefined ?s1 = (Return v, s2)"
    using append_people_resolved(1) [OF i1 ox, of env callback]
    by (cases "append_people env x callback JUndefined ?s1") auto
  note ap = append_people_resolved [OF i1 ox, of env callback, unfolded v snd_conv fst_conv]
  have step: "flush_append_loop env cell callback (length (xs @ [x])) (xs @ [x]) s =
              flush_append_loop env cell callback (length xs) xs s2"
    by (simp add: Let_def v)
  have i2: "identify_called s2"
    using i1 ap(6) by (simp add: identify_called_def)
  have c2: "cell < length (vars s2)"
    using snoc.prems(3) ap(3) by simp
  note ih = snoc.IH [OF i2 oxs c2]
  have same: "config s2 = config s" "distinct_id s2 = distinct_id s"
    "identify_called_flag s2 = identify_called_flag s"
    using ap(4,5,6) by simp_all
  have r1: "append_request env ?s1 = append_request env s"
    by (rule append_request_cong) simp_all
  have r2: "append_request env s2 = append_request env s"
    using same by (intro append_request_cong)
  from ih obtain evs where evs:
    "trace (snd (flush_append_loop env cell callback (length xs) xs s2)) = trace s2 @ evs"
    "filter is_request evs = map (append_request env s2 callback) (rev xs)"
    "filter is_save evs = []" "filter is_enqueue evs = []"
    by blast
  have tr: "trace s2 = trace s @
           [Console_log (JStr ''MIXPANEL PEOPLE REQUEST:''),
            Console_log (truncate (encodeDates env (JObj
              [(APPEND_ACTION,
                JObj (fold (\<lambda>(k, v) acc. if \<not> is_reserved_property (JStr k) then obj_set acc k v else acc)
                      (own_props env x) [])),
               (''$token'', get_config ?s1 ''token''),
               (''$distinct_id'', distinct_id ?s1)])) 255),
            append_request env s callback x]"
    using ap(2) by (simp add: r1)
  have vs: "vars (snd (flush_append_loop env cell callback (length xs) xs s2)) =
            (vars s)[cell := hd (xs @ [x])]"
    using ih ap(3) by (cases xs) simp_all
  show ?case
    unfolding step
    apply (intro conjI)
         apply (simp add: ih)
        apply (rule exI [of _ "[Console_log (JStr ''MIXPANEL PEOPLE REQUEST:''),
            Console_log (truncate (encodeDates env (JObj
              [(APPEND_ACTION,
                JObj (fold (\<lambda>(k, v) acc. if \<not> is_reserved_property (JStr k) then obj_set acc k v else acc)
                      (own_props env x) [])),
               (''$token'', get_config ?s1 ''token''),
               (''$distinct_id'', distinct_id ?s1)])) 255),
            append_request env s callback x] @ evs"])
        apply (simp add: evs tr r2 append_request_def Let_def)
       apply (simp add: vs)
      apply (simp add: ih same)
     apply (simp add: ih same)
    apply (simp add: ih same)
    done
qed

lemma flush_one_queue_absent:
  "get_queue s action = JUndefined \<Longrightarrow>
   flush_one_queue env action action_method callback queue_to_params_fn s = (Return JUndefined, s)"
  by (simp add: flush_one_queue_def extend_def isEmptyObject_def)

lemma flush_appends_only:
  assumes "get_queue s SET_ACTION = JUndefined" and "get_queue s SET_ONCE_ACTION = JUndefined"
    and "get_queue s UNSET_ACTION = JUndefined" and "get_queue s ADD_ACTION = JUndefined"
    and "get_queue s UNION_ACTION = JUndefined"
    and "get_queue s APPEND_ACTION = JArr items" and "items \<noteq> []"
  shows "flush env set_callback add_callback append_callback set_once_callback union_callback
           unset_callback s =
         and_then (flush_append_loop env (length (vars s))
                     (FlushAppendCb (length (vars s)) append_callback) (length items) items
                     (s\<lparr>vars := vars s @ [JUndefined]\<rparr>))
           (\<lambda>s2. (Return JUndefined, save s2))"
  using assms(6,7)
  by (simp add: flush_def flush_one_queue_absent assms(1-5) and_then_def Let_def isUndefined_def)

text \<open>
  C4. \<^verbatim>\<open>_flush\<close> with identity resolved, on a store whose other queues are absent and
  whose APPEND queue holds the entries \<open>items\<close> (maps, at least one): one request is made
  for each entry, that of the last entry first and that of the first entry last; the store
  is saved once, after all of them; and every request is prepared with the one
  continuation of line 438, whose variable \<^verbatim>\<open>$append_item\<close> holds the first entry of the
  queue from the end of the loop on. So when the transport reports the network failure
  for any of the requests (the result 0 of a transport that is not asked for verbose
  results), the entry handed back to the store is the first entry of the queue.
\<close>

theorem flush_append_requeues_head:
  assumes "identify_called s"
    and "get_queue s SET_ACTION = JUndefined" and "get_queue s SET_ONCE_ACTION = JUndefined"
    and "get_queue s UNSET_ACTION = JUndefined" and "get_queue s ADD_ACTION = JUndefined"
    and "get_queue s UNION_ACTION = JUndefined"
    and "get_queue s APPEND_ACTION = JArr items" and "items \<noteq> []" and "list_all isObject items"
    and "append_callback = JUndefined \<or> append_callback = JFun n"
  shows "fst (flush env c1 c2 append_callback c4 c5 c6 s) = Return JUndefined \<and>
     filter is_request (new_events s (snd (flush env c1 c2 append_callback c4 c5 c6 s))) =
       map (append_request env s (FlushAppendCb (length (vars s)) append_callback)) (rev items) \<and>
     filter is_save (new_events s (snd (flush env c1 c2 append_callback c4 c5 c6 s))) = [Save] \<and>
     last (new_events s (snd (flush env c1 c2 append_callback c4 c5 c6 s))) = Save \<and>
     read_var (snd (flush env c1 c2 append_callback c4 c5 c6 s)) (length (vars s)) = hd items \<and>
     filter is_enqueue (new_events (snd (flush env c1 c2 append_callback c4 c5 c6 s))
        (snd (invoke env (PreparedCb (FlushAppendCb (length (vars s)) append_callback) data)
                [failure_result False error] (snd (flush env c1 c2 append_callback c4 c5 c6 s))))) =
       [Add_to_people_queue APPEND_ACTION (hd items)]"
proof -
  let ?cell = "length (vars s)"
  let ?cb = "FlushAppendCb ?cell append_callback"
  let ?s0 = "s\<lparr>vars := vars s @ [JUndefined]\<rparr>"
  let ?L = "flush_append_loop env ?cell ?cb (length items) items ?s0"
  let ?F = "flush env c1 c2 append_callback c4 c5 c6 s"
  have i0: "identify_called ?s0"
    using assms(1) by (simp add: identify_called_def)
  have c0: "?cell < length (vars ?s0)"
    by simp
  note loop = flush_append_loop_resolved [OF i0 assms(9) c0, of env ?cb]
  have r0: "append_request env ?s0 = append_request env s"
    by (rule append_request_cong) simp_all
  from loop obtain evs where evs:
    "trace (snd ?L) = trace s @ evs"
    "filter is_request evs = map (append_request env s ?cb) (rev items)"
    "filter is_save evs = []" "filter is_enqueue evs = []"
    by (auto simp add: r0)
  have lv: "fst ?L = Return JUndefined"
    and vv: "vars (snd ?L) = (vars s @ [JUndefined])[?cell := hd items]"
    using loop assms(8) by simp_all
  have F: "?F = (Return JUndefined, save (snd ?L))"
    using lv
    by (cases ?L) (simp add: flush_appends_only [OF assms(2-8)] and_then_def)
  have n: "new_events s (snd ?F) = evs @ [Save]"
    by (intro new_events_eq) (simp add: F save_def evs(1))
  have rv: "read_var (snd ?F) ?cell = hd items"
    by (simp add: F save_def read_var_def vv)
  have "trace (snd (invoke env (PreparedCb ?cb data) [failure_result False error] (snd ?F))) =
        trace (snd ?F) @ Add_to_people_queue APPEND_ACTION (hd items) #
          (if append_callback = JFun n then [Call n [failure_result False error, data]] else [])"
    using assms(10) rv
    by (auto simp add: Let_def isUndefined_def failure_result_def arg_def)
  then have q: "filter is_enqueue (new_events (snd ?F)
        (snd (invoke env (PreparedCb ?cb data) [failure_result False error] (snd ?F)))) =
       [Add_to_people_queue APPEND_ACTION (hd items)]"
    by (simp add: new_events_eq)
  show ?thesis
    using F n evs(2,3) rv q by simp
qed

theorem flush_append_requeues_head_witness:
  "identify_called appends_pending \<and>
   get_queue appends_pending APPEND_ACTION =
     JArr [JObj [(''log'', JStr ''first'')], JObj [(''log'', JStr ''second'')]] \<and>
   filter is_request (new_events appends_pending
      (snd (flush plain_env JUndefined JUndefined (JFun 3) JUndefined JUndefined JUndefined appends_pending))) =
     [append_request plain_env appends_pending (FlushAppendCb 0 (JFun 3)) (JObj [(''log'', JStr ''second'')]),
      append_request plain_env appends_pending (FlushAppendCb 0 (JFun 3)) (JObj [(''log'', JStr ''first'')])] \<and>
   filter is_save (new_events appends_pending
      (snd (flush plain_env JUndefined JUndefined (JFun 3) JUndefined JUndefined JUndefined appends_pending))) =
     [Save] \<and>
   append_request plain_env appends_pending (FlushAppendCb 0 (JFun 3)) (JObj [(''log'', JStr ''second'')]) =
     Send_request (JStr ''https://api.example.com/engage/'')
       (wire_request plain_env (JObj [(''$append'', JObj [(''log'', JStr ''second'')]),
          (''$token'', JStr ''t0k3n''), (''$distinct_id'', JStr ''user-7'')]))
       (PreparedCb (FlushAppendCb 0 (JFun 3))
          (JObj [(''$append'', JObj [(''log'', JStr ''second'')]),
             (''$token'', JStr ''t0k3n''), (''$distinct_id'', JStr ''user-7'')])) \<and>
   filter is_enqueue (new_events
      (snd (flush plain_env JUndefined JUndefined (JFun 3) JUndefined JUndefined JUndefined appends_pending))
      (snd (invoke plain_env
         (PreparedCb (FlushAppendCb 0 (JFun 3))
            (JObj [(''$append'', JObj [(''log'', JStr ''second'')]),
               (''$token'', JStr ''t0k3n''), (''$distinct_id'', JStr ''user-7'')]))
         [failure_result False (JStr ''Bad HTTP status: 500'')]
         (snd (flush plain_env JUndefined JUndefined (JFun 3) JUndefined JUndefined JUndefined appends_pending))))) =
     [Add_to_people_queue APPEND_ACTION (JObj [(''log'', JStr ''first'')])]"
proof -
  let ?items = "[JObj [(''log'', JStr ''first'')], JObj [(''log'', JStr ''second'')]]"
  have a: "identify_called appends_pending"
    by (simp add: identify_called_def appends_pending_def identified_def anonymous_def)
  have q: "get_queue appends_pending SET_ACTION = JUndefined"
    "get_queue appends_pending SET_ONCE_ACTION = JUndefined"
    "get_queue appends_pending UNSET_ACTION = JUndefined"
    "get_queue appends_pending ADD_ACTION = JUndefined"
    "get_queue appends_pending UNION_ACTION = JUndefined"
    "get_queue appends_pending APPEND_ACTION = JArr ?items"
    by (simp_all add: get_queue_def appends_pending_def action_defs)
  have i: "?items \<noteq> []" "list_all isObject ?items" "JFun 3 = JUndefined \<or> JFun 3 = JFun 3"
    by simp_all
  have v: "length (vars appends_pending) = 0"
    by (simp add: appends_pending_def identified_def anonymous_def)
  have r: "append_request plain_env appends_pending (FlushAppendCb 0 (JFun 3)) (JObj [(''log'', JStr ''second'')]) =
     Send_request (JStr ''https://api.example.com/engage/'')
       (wire_request plain_env (JObj [(''$append'', JObj [(''log'', JStr ''second'')]),
          (''$token'', JStr ''t0k3n''), (''$distinct_id'', JStr ''user-7'')]))
       (PreparedCb (FlushAppendCb 0 (JFun 3))
          (JObj [(''$append'', JObj [(''log'', JStr ''second'')]),
             (''$token'', JStr ''t0k3n''), (''$distinct_id'', JStr ''user-7'')]))"
    by (simp add: append_request_def is_reserved_property_def obj_set_def APPEND_ACTION_def
        get_config_def)
       (simp add: plain_env_def appends_pending_def identified_def anonymous_def Let_def)
  from a q(6) r
    flush_append_requeues_head [OF a q i, of plain_env JUndefined JUndefined JUndefined JUndefined JUndefined
      "JObj [(''$append'', JObj [(''log'', JStr ''second'')]),
             (''$token'', JStr ''t0k3n''), (''$distinct_id'', JStr ''user-7'')]"
      "JStr ''Bad HTTP status: 500''"]
  show ?thesis
    by (simp add: v)
qed

end
